theory Spec2Isabelle
  imports Complex_Main "HOL-Library.Char_ord" "HOL-Library.List_Lexorder"
begin

section \<open>Values the Python code computes with\<close>

subsection \<open>Exceptions\<close>

text \<open>
  Every exception the modelled calls can raise is a subclass of Python's \<open>Exception\<close>, so
  each \<open>except Exception\<close> of the source catches every value of this type.
\<close>

datatype exn =
    FileNotFoundError
  | PermissionError
  | OSError
  | UnicodeDecodeError
  | ParserError
  | EmptyDataError
  | ValueError
  | OverflowError
  | ZeroDivisionError

subsection \<open>Floats\<close>

text \<open>
  A Python float (and a numpy float64) is a finite value, an infinity or a NaN. The
  finite values are kept as rationals; the rounding of every arithmetic result to a
  representable value is a parameter \<open>rnd\<close> of the operations below, which may also
  overflow to an infinity. Signed zeros are not distinguished: the only divisor of the
  source that can be zero is a quotient of two non-negative integers.
\<close>

datatype pyfloat = Fin rat | PInf | NInf | NaN

type_synonym rounding = "rat \<Rightarrow> pyfloat"

text \<open>
  \<open>x * k\<close> for a float \<open>x\<close> and an int \<open>k\<close> (the int is converted exactly; the
  source's only such factor is \<open>1024 * 1024\<close>). An overflow yields an infinity, never an
  exception.
\<close>

fun float_mul_int :: "rounding \<Rightarrow> pyfloat \<Rightarrow> int \<Rightarrow> pyfloat" where
  "float_mul_int rnd (Fin x) k = rnd (x * of_int k)"
| "float_mul_int rnd PInf k = (if k = 0 then NaN else if 0 < k then PInf else NInf)"
| "float_mul_int rnd NInf k = (if k = 0 then NaN else if 0 < k then NInf else PInf)"
| "float_mul_int rnd NaN k = NaN"

text \<open>
  \<open>m / n\<close> for a numpy int64 \<open>m\<close> and an int \<open>n\<close>, both non-negative: numpy divides by
  zero without raising (it warns) and yields \<open>inf\<close>, or \<open>nan\<close> for \<open>0 / 0\<close>.
\<close>

definition np_true_divide :: "rounding \<Rightarrow> nat \<Rightarrow> nat \<Rightarrow> pyfloat" where
  "np_true_divide rnd m n =
     (if n = 0 then (if m = 0 then NaN else PInf)
      else rnd (of_nat m / of_nat n))"

text \<open>
  \<open>x / y\<close> for a float \<open>x\<close> and a numpy float64 \<open>y\<close>: the numpy operand takes the
  division, so a zero divisor yields an infinity or a NaN instead of ZeroDivisionError.
\<close>

fun float_div :: "rounding \<Rightarrow> pyfloat \<Rightarrow> pyfloat \<Rightarrow> pyfloat" where
  "float_div rnd NaN y = NaN"
| "float_div rnd x NaN = NaN"
| "float_div rnd (Fin x) (Fin y) =
     (if y = 0 then (if x = 0 then NaN else if 0 < x then PInf else NInf)
      else rnd (x / y))"
| "float_div rnd (Fin x) PInf = Fin 0"
| "float_div rnd (Fin x) NInf = Fin 0"
| "float_div rnd PInf (Fin y) = (if 0 \<le> y then PInf else NInf)"
| "float_div rnd NInf (Fin y) = (if 0 \<le> y then NInf else PInf)"
| "float_div rnd PInf PInf = NaN"
| "float_div rnd PInf NInf = NaN"
| "float_div rnd NInf PInf = NaN"
| "float_div rnd NInf NInf = NaN"

text \<open>\<open>int(x)\<close>: truncation towards zero; an infinity or a NaN raises.\<close>

definition trunc :: "rat \<Rightarrow> int" where
  "trunc q = (if 0 \<le> q then \<lfloor>q\<rfloor> else \<lceil>q\<rceil>)"

fun py_int :: "pyfloat \<Rightarrow> exn + int" where
  "py_int (Fin q) = Inr (trunc q)"
| "py_int PInf = Inl OverflowError"
| "py_int NInf = Inl OverflowError"
| "py_int NaN = Inl ValueError"

text \<open>\<open>x < y\<close> and \<open>x <= y\<close> on floats: false whenever an operand is a NaN.\<close>

fun float_less :: "pyfloat \<Rightarrow> pyfloat \<Rightarrow> bool" where
  "float_less NaN y = False"
| "float_less x NaN = False"
| "float_less (Fin x) (Fin y) = (x < y)"
| "float_less (Fin x) PInf = True"
| "float_less (Fin x) NInf = False"
| "float_less PInf y = False"
| "float_less NInf NInf = False"
| "float_less NInf y = True"

fun float_le :: "pyfloat \<Rightarrow> pyfloat \<Rightarrow> bool" where
  "float_le NaN y = False"
| "float_le x NaN = False"
| "float_le (Fin x) (Fin y) = (x \<le> y)"
| "float_le (Fin x) PInf = True"
| "float_le (Fin x) NInf = False"
| "float_le PInf PInf = True"
| "float_le PInf y = False"
| "float_le NInf y = True"

text \<open>
  What the theorems below ask of the rounding, where they ask anything: it is monotone and
  leaves 0 and 1 as they are, as rounding to the nearest double does.
\<close>

definition faithful_rounding :: "rounding \<Rightarrow> bool" where
  "faithful_rounding rnd \<longleftrightarrow>
     rnd 0 = Fin 0 \<and> rnd 1 = Fin 1 \<and> (\<forall>x y. x \<le> y \<longrightarrow> float_le (rnd x) (rnd y))"

subsection \<open>Frames and delimited text files\<close>

text \<open>
  A DataFrame is its column names and its records, in order. The row index is not part
  of the model: the source never writes it (\<open>index=False\<close>).
\<close>

type_synonym row = "string list"

record frame =
  columns :: "string list"
  rows :: "row list"

text \<open>
  What the pandas parser makes of one line after the header: a record, a line with too
  many fields (the parser's "bad line"), or bytes that are not UTF-8.
\<close>

datatype line = Record row | TooManyFields | BadBytes

record csv_file =
  header :: "string list"
  body :: "line list"

text \<open>The \<open>on_bad_lines\<close> argument of \<open>pd.read_csv\<close>; \<open>OnError\<close> is its default.\<close>

datatype bad_lines = OnError | OnSkip

text \<open>
  Reading up to \<open>n\<close> records from the lines still pending: a bad line is dropped under
  \<open>OnSkip\<close> and does not count towards \<open>n\<close>, raises under \<open>OnError\<close>; undecodable bytes
  raise under both. The result is the records read and the lines left.
\<close>

fun next_rows :: "bad_lines \<Rightarrow> nat \<Rightarrow> line list \<Rightarrow> exn + (row list \<times> line list)" where
  "next_rows pol 0 ls = Inr ([], ls)"
| "next_rows pol (Suc n) [] = Inr ([], [])"
| "next_rows pol (Suc n) (Record r # ls) =
     (case next_rows pol n ls of
        Inl e \<Rightarrow> Inl e
      | Inr (rs, rest) \<Rightarrow> Inr (r # rs, rest))"
| "next_rows OnSkip (Suc n) (TooManyFields # ls) = next_rows OnSkip (Suc n) ls"
| "next_rows OnError (Suc n) (TooManyFields # ls) = Inl ParserError"
| "next_rows pol (Suc n) (BadBytes # ls) = Inl UnicodeDecodeError"

subsection \<open>Paths and stored files\<close>

text \<open>
  \<open>output_dir / name\<close>: a path is kept as its directory and its final component
  (\<open>file.name\<close>).
\<close>

datatype path = Path (parent: string) (name: string)

text \<open>
  What is found at a path of the output directory: a complete Parquet file (its columns
  and records), or the truncated remains of a write that failed part-way.
\<close>

datatype stored = Parquet "string list" "row list" | Truncated

type_synonym disk = "path \<rightharpoonup> stored"

text \<open>How a call of \<open>to_parquet\<close> ends: nothing of the source decides it.\<close>

datatype write_result = WriteOk | WriteFailsClean exn | WriteFailsPartial exn

subsection \<open>The environment of a run\<close>

text \<open>
  Everything the source asks of pandas, numpy and the operating system and does not
  compute itself: the rounding of float arithmetic, the deep memory footprint of a frame,
  what opening a path as UTF-8 delimited text yields (an exception, or the header and the
  lines), whether a directory can be created, how the write to a path ends, and the byte
  size of a stored file.
\<close>

record env =
  float_round :: rounding
  memory_usage :: "frame \<Rightarrow> nat"
  open_csv :: "string \<Rightarrow> exn + csv_file"
  mkdir :: "string \<Rightarrow> exn option"
  write_outcome :: "path \<Rightarrow> write_result"
  file_size :: "stored \<Rightarrow> nat"

text \<open>\<open>pd.read_csv(csv_path, nrows=n, on_bad_lines=pol)\<close>.\<close>

definition read_csv_nrows :: "env \<Rightarrow> string \<Rightarrow> nat \<Rightarrow> bad_lines \<Rightarrow> exn + frame" where
  "read_csv_nrows env csv_path n pol =
     (case open_csv env csv_path of
        Inl e \<Rightarrow> Inl e
      | Inr f \<Rightarrow>
          (case next_rows pol n (body f) of
             Inl e \<Rightarrow> Inl e
           | Inr (rs, rest) \<Rightarrow> Inr \<lparr>columns = header f, rows = rs\<rparr>))"

text \<open>
  \<open>pd.read_csv(csv_path, chunksize=n, on_bad_lines=pol)\<close>: an iterator over frames of
  \<open>n\<close> records each. Its first frame is yielded even when it has no record (a file of
  a header only); after that, a read that finds no record ends the iteration.
\<close>

record reader =
  rd_columns :: "string list"
  pending :: "line list"
  first_chunk :: bool
  chunksize :: nat
  on_bad_lines :: bad_lines

definition read_csv_chunks :: "env \<Rightarrow> string \<Rightarrow> nat \<Rightarrow> bad_lines \<Rightarrow> exn + reader" where
  "read_csv_chunks env csv_path n pol =
     (if n < 1 then Inl ValueError
      else case open_csv env csv_path of
        Inl e \<Rightarrow> Inl e
      | Inr f \<Rightarrow>
          Inr \<lparr>rd_columns = header f, pending = body f, first_chunk = True,
               chunksize = n, on_bad_lines = pol\<rparr>)"

text \<open>\<open>next(reader)\<close>: an exception, \<open>None\<close> for StopIteration, or a frame and the reader after it.\<close>

definition next_chunk :: "reader \<Rightarrow> exn + (frame \<times> reader) option" where
  "next_chunk rd =
     (case next_rows (on_bad_lines rd) (chunksize rd) (pending rd) of
        Inl e \<Rightarrow> Inl e
      | Inr (rs, rest) \<Rightarrow>
          if rs = [] \<and> \<not> first_chunk rd then Inr None
          else Inr (Some (\<lparr>columns = rd_columns rd, rows = rs\<rparr>,
                          rd\<lparr>pending := rest, first_chunk := False\<rparr>)))"

definition reader_measure :: "reader \<Rightarrow> nat" where
  "reader_measure rd = length (pending rd) + (if first_chunk rd then 1 else 0)"

section \<open>The converter\<close>

text \<open>What the source prints, one constructor for each \<open>print\<close>.\<close>

datatype msg =
    ErrorEstimating exn
  | WarnCount exn
  | Proceeding
  | TotalRows nat
  | TotalUnknown
  | Processing string
  | EstimatedRows int
  | ExpectedChunks int
  | CreatedFiles nat
  | FileSize string rat
  | ErrorDuringConversion exn

record converter =
  chunk_size_mb :: pyfloat
  bytes_per_mb :: int

definition init :: "pyfloat \<Rightarrow> converter" where
  "init size_mb = \<lparr>chunk_size_mb = size_mb, bytes_per_mb = 1024 * 1024\<rparr>"

subsection \<open>estimate_rows_per_chunk\<close>

text \<open>\<open>sample_memory / len(sample_df)\<close> and \<open>chunk_size_mb * self.bytes_per_mb\<close>.\<close>

definition avg_row_size :: "env \<Rightarrow> frame \<Rightarrow> pyfloat" where
  "avg_row_size env sample_df =
     (let sample_memory = memory_usage env sample_df
      in np_true_divide (float_round env) sample_memory (length (rows sample_df)))"

definition target_chunk_size :: "env \<Rightarrow> converter \<Rightarrow> pyfloat \<Rightarrow> pyfloat" where
  "target_chunk_size env self size_mb =
     float_mul_int (float_round env) size_mb (bytes_per_mb self)"

text \<open>The body of the \<open>try\<close>: its exception, or the value returned.\<close>

definition estimate_try :: "env \<Rightarrow> converter \<Rightarrow> string \<Rightarrow> pyfloat \<Rightarrow> exn + int" where
  "estimate_try env self csv_path size_mb =
     (let sample_size = 1000 in
      (case read_csv_nrows env csv_path sample_size OnSkip of
         Inl e \<Rightarrow> Inl e
       | Inr sample_df \<Rightarrow>
           (case py_int (float_div (float_round env)
                           (target_chunk_size env self size_mb)
                           (avg_row_size env sample_df)) of
              Inl e \<Rightarrow> Inl e
            | Inr k \<Rightarrow> Inr (max 1000 k))))"

definition estimate_rows_per_chunk ::
  "env \<Rightarrow> converter \<Rightarrow> string \<Rightarrow> pyfloat \<Rightarrow> msg list \<times> int" where
  "estimate_rows_per_chunk env self csv_path size_mb =
     (case estimate_try env self csv_path size_mb of
        Inr rows_per_chunk \<Rightarrow> ([], rows_per_chunk)
      | Inl e \<Rightarrow> ([ErrorEstimating e], 10000))"

subsection \<open>get_total_rows\<close>

lemma next_rows_length:
  "next_rows pol n ls = Inr (rs, rest) \<Longrightarrow>
     length rest \<le> length ls \<and> (rs \<noteq> [] \<longrightarrow> length rest < length ls)"
proof (induction pol n ls arbitrary: rs rest rule: next_rows.induct)
  case (3 pol n r ls)
  then show ?case
    by (fastforce split: sum.splits prod.splits)
qed (auto split: sum.splits)

lemma next_chunk_measure:
  "next_chunk rd = Inr (Some (chunk, rd')) \<Longrightarrow> reader_measure rd' < reader_measure rd"
  by (auto simp: next_chunk_def reader_measure_def dest!: next_rows_length
           split: sum.splits prod.splits if_splits)

text \<open>\<open>sum(len(chunk) for chunk in reader)\<close>.\<close>

function sum_chunk_lengths :: "reader \<Rightarrow> nat \<Rightarrow> exn + nat" where
  "sum_chunk_lengths rd total_rows =
     (case next_chunk rd of
        Inl e \<Rightarrow> Inl e
      | Inr None \<Rightarrow> Inr total_rows
      | Inr (Some (chunk, rd')) \<Rightarrow>
          sum_chunk_lengths rd' (total_rows + length (rows chunk)))"
  by pat_completeness auto
termination
  by (relation "measure (\<lambda>(rd, total_rows). reader_measure rd)") (auto simp: next_chunk_measure)

declare sum_chunk_lengths.simps [simp del]

text \<open>
  The body of the \<open>try\<close>. The reader is opened with the default \<open>on_bad_lines\<close>: the
  call passes no such argument.
\<close>

definition count_try :: "env \<Rightarrow> string \<Rightarrow> exn + nat" where
  "count_try env csv_path =
     (case read_csv_chunks env csv_path 10000 OnError of
        Inl e \<Rightarrow> Inl e
      | Inr reader \<Rightarrow> sum_chunk_lengths reader 0)"

definition get_total_rows :: "env \<Rightarrow> string \<Rightarrow> msg list \<times> nat option" where
  "get_total_rows env csv_path =
     (case count_try env csv_path of
        Inr total_rows \<Rightarrow> ([], Some total_rows)
      | Inl e \<Rightarrow> ([WarnCount e, Proceeding], None))"

subsection \<open>The name of a segment file\<close>

text \<open>\<open>f"chunk_{chunk_num:04d}.parquet"\<close>: decimal digits, padded with zeros to at least four.\<close>

definition digit_char :: "nat \<Rightarrow> char" where
  "digit_char d = char_of (48 + d)"

fun decimal :: "nat \<Rightarrow> string" where
  "decimal n = (if n < 10 then [digit_char n] else decimal (n div 10) @ [digit_char (n mod 10)])"

declare decimal.simps [simp del]

definition format_04d :: "nat \<Rightarrow> string" where
  "format_04d n = replicate (4 - length (decimal n)) (CHR ''0'') @ decimal n"

definition chunk_file_name :: "nat \<Rightarrow> string" where
  "chunk_file_name chunk_num = ''chunk_'' @ format_04d chunk_num @ ''.parquet''"

subsection \<open>Writing and measuring a segment\<close>

text \<open>
  \<open>chunk.to_parquet(output_file, index=False)\<close> writes to \<open>output_file\<close> itself: a write
  that succeeds leaves the columns and records of the chunk there, without an index
  column; a write that fails may leave nothing new, or a truncated file.
\<close>

definition to_parquet :: "env \<Rightarrow> frame \<Rightarrow> path \<Rightarrow> disk \<Rightarrow> disk \<times> (exn + unit)" where
  "to_parquet env chunk output_file d =
     (case write_outcome env output_file of
        WriteOk \<Rightarrow> (d(output_file \<mapsto> Parquet (columns chunk) (rows chunk)), Inr ())
      | WriteFailsClean e \<Rightarrow> (d, Inl e)
      | WriteFailsPartial e \<Rightarrow> (d(output_file \<mapsto> Truncated), Inl e))"

text \<open>\<open>pd.read_parquet(p)\<close>, as the viewer calls it.\<close>

definition read_parquet :: "disk \<Rightarrow> path \<Rightarrow> exn + frame" where
  "read_parquet d p =
     (case d p of
        None \<Rightarrow> Inl FileNotFoundError
      | Some Truncated \<Rightarrow> Inl OSError
      | Some (Parquet cs rs) \<Rightarrow> Inr \<lparr>columns = cs, rows = rs\<rparr>)"

definition getsize :: "env \<Rightarrow> disk \<Rightarrow> path \<Rightarrow> exn + nat" where
  "getsize env d p =
     (case d p of
        None \<Rightarrow> Inl FileNotFoundError
      | Some f \<Rightarrow> Inr (file_size env f))"

text \<open>\<open>os.path.getsize(file) / self.bytes_per_mb\<close>; the quotient is only displayed.\<close>

definition size_in_mb :: "env \<Rightarrow> converter \<Rightarrow> disk \<Rightarrow> path \<Rightarrow> exn + rat" where
  "size_in_mb env self d p =
     (case getsize env d p of
        Inl e \<Rightarrow> Inl e
      | Inr n \<Rightarrow>
          if bytes_per_mb self = 0 then Inl ZeroDivisionError
          else Inr (of_nat n / of_int (bytes_per_mb self)))"

subsection \<open>split_and_convert\<close>

text \<open>\<open>output_dir / f"chunk_{chunk_num:04d}.parquet"\<close>.\<close>

definition segment_path :: "string \<Rightarrow> nat \<Rightarrow> path" where
  "segment_path output_dir chunk_num = Path output_dir (chunk_file_name chunk_num)"

text \<open>
  The body of the \<open>for chunk_num, chunk in enumerate(pbar)\<close> loop: the files created so
  far, the disk, and the exception raised in the body, if one was.
\<close>

definition write_chunk ::
  "env \<Rightarrow> converter \<Rightarrow> string \<Rightarrow> nat \<Rightarrow> frame \<Rightarrow> path list \<Rightarrow> disk
     \<Rightarrow> path list \<times> disk \<times> exn option" where
  "write_chunk env self output_dir chunk_num chunk created_files d =
     (let output_file = segment_path output_dir chunk_num in
      (case to_parquet env chunk output_file d of
         (d', Inl e) \<Rightarrow> (created_files, d', Some e)
       | (d', Inr u) \<Rightarrow>
           (let created_files' = created_files @ [output_file] in
            (case size_in_mb env self d' output_file of
               Inl e \<Rightarrow> (created_files', d', Some e)
             | Inr chunk_size \<Rightarrow> (created_files', d', None)))))"

text \<open>
  The loop. It ends with the files created, the disk, and the exception that stopped it,
  if one did. The progress bar only displays.
\<close>

function convert_chunks ::
  "env \<Rightarrow> converter \<Rightarrow> string \<Rightarrow> reader \<Rightarrow> nat \<Rightarrow> path list \<Rightarrow> disk
     \<Rightarrow> path list \<times> disk \<times> exn option" where
  "convert_chunks env self output_dir rd chunk_num created_files d =
     (case next_chunk rd of
        Inl e \<Rightarrow> (created_files, d, Some e)
      | Inr None \<Rightarrow> (created_files, d, None)
      | Inr (Some (chunk, rd')) \<Rightarrow>
          (case write_chunk env self output_dir chunk_num chunk created_files d of
             (created_files', d', Some e) \<Rightarrow> (created_files', d', Some e)
           | (created_files', d', None) \<Rightarrow>
               convert_chunks env self output_dir rd' (Suc chunk_num) created_files' d'))"
  by pat_completeness auto
termination
  by (relation "measure (\<lambda>(env, self, output_dir, rd, rest). reader_measure rd)")
     (auto simp: next_chunk_measure)

declare convert_chunks.simps [simp del]

text \<open>The loop that prints the size of each created file.\<close>

fun report_sizes :: "env \<Rightarrow> converter \<Rightarrow> disk \<Rightarrow> path list \<Rightarrow> msg list \<times> exn option" where
  "report_sizes env self d [] = ([], None)"
| "report_sizes env self d (file # files) =
     (case size_in_mb env self d file of
        Inl e \<Rightarrow> ([], Some e)
      | Inr size_mb \<Rightarrow>
          (case report_sizes env self d files of
             (ms, r) \<Rightarrow> (FileSize (name file) size_mb # ms, r)))"

text \<open>The \<open>try\<close> block with its handler: the list returned, the disk and what was printed.\<close>

definition convert_try ::
  "env \<Rightarrow> converter \<Rightarrow> string \<Rightarrow> string \<Rightarrow> int \<Rightarrow> disk \<Rightarrow> path list \<times> disk \<times> msg list" where
  "convert_try env self input_csv output_dir rows_per_chunk d =
     (case read_csv_chunks env input_csv (nat rows_per_chunk) OnSkip of
        Inl e \<Rightarrow> ([], d, [ErrorDuringConversion e])
      | Inr chunk_iterator \<Rightarrow>
          (case convert_chunks env self output_dir chunk_iterator 0 [] d of
             (created_files, d', Some e) \<Rightarrow> (created_files, d', [ErrorDuringConversion e])
           | (created_files, d', None) \<Rightarrow>
               (case report_sizes env self d' created_files of
                  (ms, Some e) \<Rightarrow>
                    (created_files, d',
                     CreatedFiles (length created_files) # ms @ [ErrorDuringConversion e])
                | (ms, None) \<Rightarrow>
                    (created_files, d', CreatedFiles (length created_files) # ms))))"

text \<open>
  \<open>math.ceil(total_rows / rows_per_chunk)\<close> under \<open>if total_rows:\<close>; it stands outside the
  \<open>try\<close>, so a zero divisor would raise to the caller. The count is only displayed.
\<close>

definition plan_chunks :: "nat option \<Rightarrow> int \<Rightarrow> exn + (msg list \<times> int option)" where
  "plan_chunks total_rows rows_per_chunk =
     (case total_rows of
        None \<Rightarrow> Inr ([TotalUnknown], None)
      | Some n \<Rightarrow>
          if n = 0 then Inr ([TotalUnknown], None)
          else if rows_per_chunk = 0 then Inl ZeroDivisionError
          else Inr ([TotalRows n],
                    Some \<lceil>(of_nat n :: rat) / of_int rows_per_chunk\<rceil>))"

record outcome =
  self_after :: converter
  returned :: "exn + path list"
  disk_after :: disk
  printed :: "msg list"

text \<open>The statements of \<open>split_and_convert\<close> after \<open>total_rows\<close> has been computed.\<close>

definition convert_with_total ::
  "env \<Rightarrow> converter \<Rightarrow> string \<Rightarrow> string \<Rightarrow> msg list \<times> nat option \<Rightarrow> disk \<Rightarrow> outcome" where
  "convert_with_total env self input_csv output_dir counted d =
     (case counted of (log1, total_rows) \<Rightarrow>
      (case estimate_rows_per_chunk env self input_csv (chunk_size_mb self) of
         (log2, rows_per_chunk) \<Rightarrow>
      (case plan_chunks total_rows rows_per_chunk of
         Inl e \<Rightarrow>
           \<lparr>self_after = self, returned = Inl e, disk_after = d, printed = log1 @ log2\<rparr>
       | Inr (log3, total_chunks) \<Rightarrow>
           (let log4 = [Processing input_csv, EstimatedRows rows_per_chunk] @
                  (case total_chunks of
                     None \<Rightarrow> []
                   | Some c \<Rightarrow> if c = 0 then [] else [ExpectedChunks c])
            in (case convert_try env self input_csv output_dir rows_per_chunk d of
                  (created_files, d', log5) \<Rightarrow>
                    \<lparr>self_after = self, returned = Inr created_files, disk_after = d',
                     printed = log1 @ log2 @ log3 @ log4 @ log5\<rparr>)))))"

text \<open>\<open>if chunk_size_mb is not None: self.chunk_size_mb = float(chunk_size_mb)\<close>.\<close>

definition set_chunk_size :: "converter \<Rightarrow> pyfloat option \<Rightarrow> converter" where
  "set_chunk_size self size_mb =
     (case size_mb of
        None \<Rightarrow> self
      | Some v \<Rightarrow> self\<lparr>chunk_size_mb := v\<rparr>)"

definition split_and_convert ::
  "env \<Rightarrow> converter \<Rightarrow> string \<Rightarrow> string \<Rightarrow> pyfloat option \<Rightarrow> disk \<Rightarrow> outcome" where
  "split_and_convert env self input_csv output_dir size_mb d =
     (let self' = set_chunk_size self size_mb
      in (case mkdir env output_dir of
            Some e \<Rightarrow> \<lparr>self_after = self', returned = Inl e, disk_after = d, printed = []\<rparr>
          | None \<Rightarrow>
              convert_with_total env self' input_csv output_dir
                (get_total_rows env input_csv) d))"

section \<open>What a run is measured against\<close>

text \<open>The records of a file, in order: what the parser reads when it skips bad lines.\<close>

fun records :: "line list \<Rightarrow> row list" where
  "records [] = []"
| "records (Record r # ls) = r # records ls"
| "records (l # ls) = records ls"

text \<open>
  All the frames a reader yields, and the exception that ends the iteration if one does:
  the batches of a run.
\<close>

function batches :: "reader \<Rightarrow> frame list \<times> exn option" where
  "batches rd =
     (case next_chunk rd of
        Inl e \<Rightarrow> ([], Some e)
      | Inr None \<Rightarrow> ([], None)
      | Inr (Some (chunk, rd')) \<Rightarrow>
          (case batches rd' of (cs, r) \<Rightarrow> (chunk # cs, r)))"
  by pat_completeness auto
termination
  by (relation "measure reader_measure") (auto simp: next_chunk_measure)

declare batches.simps [simp del]

text \<open>The iterator that \<open>split_and_convert\<close> opens for a converter and an input path.\<close>

definition chunk_iterator :: "env \<Rightarrow> converter \<Rightarrow> string \<Rightarrow> exn + reader" where
  "chunk_iterator env self input_csv =
     read_csv_chunks env input_csv
       (nat (snd (estimate_rows_per_chunk env self input_csv (chunk_size_mb self)))) OnSkip"


text \<open>The exception of a write that fails.\<close>

fun write_error :: "write_result \<Rightarrow> exn option" where
  "write_error WriteOk = None"
| "write_error (WriteFailsClean e) = Some e"
| "write_error (WriteFailsPartial e) = Some e"

section \<open>Concrete inputs\<close>

text \<open>
  A file of two records with a bad line between them, and an environment that rounds
  exactly, opens every path to the given file, creates every directory and ends each
  write as \<open>w\<close> says.
\<close>

definition demo_file :: csv_file where
  "demo_file = \<lparr>header = [''id'', ''v''],
                 body = [Record [''1'', ''x''], TooManyFields, Record [''2'', ''y'']]\<rparr>"

definition demo_env :: "csv_file \<Rightarrow> (path \<Rightarrow> write_result) \<Rightarrow> env" where
  "demo_env f w =
     \<lparr>float_round = Fin, memory_usage = (\<lambda>df. 132 + 120 * length (rows df)),
      open_csv = (\<lambda>p. Inr f), mkdir = (\<lambda>p. None), write_outcome = w,
      file_size = (\<lambda>s. 2048)\<rparr>"

section \<open>The size estimator\<close>

lemma max_trunc_floor: "max 1000 (trunc q) = max 1000 \<lfloor>q\<rfloor>"
proof (cases "0 \<le> q")
  case True
  then show ?thesis by (simp add: trunc_def)
next
  case False
  then have "q < 0" by simp
  then have "\<lceil>q\<rceil> \<le> 0" "\<lfloor>q\<rfloor> \<le> 0"
    by (simp_all add: ceiling_le_iff floor_le_iff)
  with False show ?thesis by (simp add: trunc_def)
qed

lemma faithful_nonneg:
  assumes "faithful_rounding rnd" "0 \<le> x"
  shows "float_le (Fin 0) (rnd x)"
  using assms unfolding faithful_rounding_def by metis

lemma faithful_le_one:
  assumes "faithful_rounding rnd" "x \<le> 1"
  shows "float_le (rnd x) (Fin 1)"
  using assms unfolding faithful_rounding_def by metis

lemma faithful_rounding_Fin: "faithful_rounding Fin"
  by (simp add: faithful_rounding_def)

lemma small_quotient_floor:
  assumes "faithful_rounding rnd"
      and "float_less t a"
      and "float_le (Fin 0) a \<or> a = PInf"
      and "float_div rnd t a = Fin q"
    shows "q \<le> 1"
proof (cases a)
  case (Fin y)
  show ?thesis
  proof (cases t)
    case (Fin x)
    with \<open>a = Fin y\<close> assms have xy: "x < y" "0 \<le> y" by auto
    show ?thesis
    proof (cases "y = 0")
      case True
      with Fin \<open>a = Fin y\<close> assms(4) show ?thesis by (auto split: if_splits)
    next
      case False
      with xy have "x / y \<le> 1" by simp
      from faithful_le_one [OF assms(1) this] Fin \<open>a = Fin y\<close> False assms(4)
      show ?thesis by simp
    qed
  qed (use Fin assms in \<open>auto split: if_splits\<close>)
next
  case PInf
  with assms show ?thesis by (cases t) auto
qed (use assms in \<open>cases t; auto\<close>)+

lemma avg_row_size_nonneg:
  assumes "faithful_rounding (float_round env)"
  shows "float_le (Fin 0) (avg_row_size env df) \<or> avg_row_size env df = PInf
           \<or> avg_row_size env df = NaN"
  using faithful_nonneg [OF assms, of "of_nat (memory_usage env df) / of_nat (length (rows df))"]
  by (auto simp: avg_row_size_def np_true_divide_def Let_def)

lemma next_rows_Nil [simp]: "next_rows pol n [] = Inr ([], [])"
  by (cases n) simp_all

lemma demo_sample:
  "read_csv_nrows (demo_env demo_file w) p 1000 OnSkip =
     Inr \<lparr>columns = [''id'', ''v''], rows = [[''1'', ''x''], [''2'', ''y'']]\<rparr>"
  by (simp add: read_csv_nrows_def demo_env_def demo_file_def numeral_eq_Suc)

text \<open>
  C3. On the success path of \<open>estimate_rows_per_chunk\<close> (the sample is read and the
  quotient of the target bytes by the average bytes per record is a finite float \<open>q\<close>,
  so that \<open>int\<close> does not raise) the value returned is \<open>max(1000, floor(q))\<close> and nothing
  is printed. In particular, when the average bytes per record exceed the target bytes,
  the value returned is the floor 1000, for every rounding that is monotone and exact
  at 0 and 1.
\<close>

theorem estimate_rows_per_chunk_floor:
  assumes "read_csv_nrows env csv_path 1000 OnSkip = Inr sample_df"
      and "float_div (float_round env) (target_chunk_size env self size_mb)
             (avg_row_size env sample_df) = Fin q"
  shows "estimate_rows_per_chunk env self csv_path size_mb = ([], max 1000 \<lfloor>q\<rfloor>) \<and>
         (faithful_rounding (float_round env) \<and>
          float_less (target_chunk_size env self size_mb) (avg_row_size env sample_df)
          \<longrightarrow> estimate_rows_per_chunk env self csv_path size_mb = ([], 1000))"
proof -
  have eq: "estimate_rows_per_chunk env self csv_path size_mb = ([], max 1000 \<lfloor>q\<rfloor>)"
    using assms
    by (simp add: estimate_rows_per_chunk_def estimate_try_def max_trunc_floor)
  have "max 1000 \<lfloor>q\<rfloor> = 1000"
    if f: "faithful_rounding (float_round env)"
      and l: "float_less (target_chunk_size env self size_mb) (avg_row_size env sample_df)"
  proof -
    from l have "avg_row_size env sample_df \<noteq> NaN"
      by (cases "target_chunk_size env self size_mb") auto
    with avg_row_size_nonneg [OF f, of sample_df]
    have "float_le (Fin 0) (avg_row_size env sample_df) \<or> avg_row_size env sample_df = PInf"
      by blast
    from small_quotient_floor [OF f l this assms(2)] have "q \<le> 1" .
    then have "\<lfloor>q\<rfloor> \<le> 1" by (simp add: floor_le_iff)
    then show ?thesis by simp
  qed
  with eq show ?thesis by simp
qed

theorem estimate_rows_per_chunk_floor_witness:
  "read_csv_nrows (demo_env demo_file (\<lambda>p. WriteOk)) ''in.csv'' 1000 OnSkip =
     Inr \<lparr>columns = [''id'', ''v''], rows = [[''1'', ''x''], [''2'', ''y'']]\<rparr> \<and>
   faithful_rounding Fin \<and>
   float_less (Fin 128) (Fin 186) \<and>
   estimate_rows_per_chunk (demo_env demo_file (\<lambda>p. WriteOk)) (init (Fin 250)) ''in.csv''
     (Fin (1 / 8192)) = ([], 1000) \<and>
   estimate_rows_per_chunk (demo_env demo_file (\<lambda>p. WriteOk)) (init (Fin 250)) ''in.csv''
     (Fin 250) = ([], 1409376)"
proof -
  let ?E = "demo_env demo_file (\<lambda>p. WriteOk)"
  let ?df = "\<lparr>columns = [''id'', ''v''], rows = [[''1'', ''x''], [''2'', ''y'']]\<rparr>"
  have avg: "avg_row_size ?E ?df = Fin 186"
    by (simp add: avg_row_size_def np_true_divide_def demo_env_def)
  have t1: "target_chunk_size ?E (init (Fin 250)) (Fin (1 / 8192)) = Fin 128"
    by (simp add: target_chunk_size_def init_def demo_env_def)
  have t2: "target_chunk_size ?E (init (Fin 250)) (Fin 250) = Fin 262144000"
    by (simp add: target_chunk_size_def init_def demo_env_def)
  have r: "float_round ?E = Fin" by (simp add: demo_env_def)
  have q1: "float_div (float_round ?E) (target_chunk_size ?E (init (Fin 250)) (Fin (1 / 8192)))
              (avg_row_size ?E ?df) = Fin (64 / 93)"
    unfolding avg t1 r by simp
  have q2: "float_div (float_round ?E) (target_chunk_size ?E (init (Fin 250)) (Fin 250))
              (avg_row_size ?E ?df) = Fin (131072000 / 93)"
    unfolding avg t2 r by simp
  have fl: "\<lfloor>131072000 / 93 :: rat\<rfloor> = 1409376"
    by (simp add: floor_eq_iff)
  from estimate_rows_per_chunk_floor [OF demo_sample q1]
       estimate_rows_per_chunk_floor [OF demo_sample q2]
  show ?thesis
    unfolding avg t1 t2 r by (simp add: demo_sample faithful_rounding_Fin fl)
qed

lemma estimate_ge_1000: "1000 \<le> snd (estimate_rows_per_chunk env self csv_path size_mb)"
  by (auto simp: estimate_rows_per_chunk_def estimate_try_def split: sum.splits)

text \<open>A file of a header and no record.\<close>

definition header_only :: csv_file where
  "header_only = \<lparr>header = [''id'', ''v''], body = []\<rparr>"

lemma header_only_sample:
  "read_csv_nrows (demo_env header_only w) p 1000 OnSkip =
     Inr \<lparr>columns = [''id'', ''v''], rows = []\<rparr>"
  by (simp add: read_csv_nrows_def demo_env_def header_only_def)

text \<open>
  C4, as the code has it. Whatever exception the body of the \<open>try\<close> raises,
  \<open>estimate_rows_per_chunk\<close> prints it and returns 10000, and its result is always a
  value, never an exception: so for a path that cannot be opened, for bytes that cannot
  be decoded within the sample, and for a sample of no record whose measured footprint is
  0 (the quotient \<open>0 / 0\<close> is a NaN, and \<open>int\<close> of a NaN raises). A sample of no
  record whose measured footprint is positive does not raise: numpy's division by the
  record count 0 yields \<open>inf\<close>, a finite target divided by it is 0, and the value
  returned is the floor 1000.
\<close>

theorem estimate_failure_default:
  "(estimate_try env self csv_path size_mb = Inl e \<longrightarrow>
      estimate_rows_per_chunk env self csv_path size_mb = ([ErrorEstimating e], 10000)) \<and>
   (open_csv env csv_path = Inl e \<longrightarrow>
      estimate_rows_per_chunk env self csv_path size_mb = ([ErrorEstimating e], 10000)) \<and>
   (open_csv env csv_path = Inr f \<and> next_rows OnSkip 1000 (body f) = Inl e \<longrightarrow>
      estimate_rows_per_chunk env self csv_path size_mb = ([ErrorEstimating e], 10000)) \<and>
   (read_csv_nrows env csv_path 1000 OnSkip = Inr df \<and> rows df = [] \<and>
    memory_usage env df = 0 \<longrightarrow>
      estimate_rows_per_chunk env self csv_path size_mb = ([ErrorEstimating ValueError], 10000)) \<and>
   (read_csv_nrows env csv_path 1000 OnSkip = Inr df \<and> rows df = [] \<and>
    0 < memory_usage env df \<and> target_chunk_size env self size_mb = Fin t \<longrightarrow>
      estimate_rows_per_chunk env self csv_path size_mb = ([], 1000))"
proof (intro conjI impI)
  assume "estimate_try env self csv_path size_mb = Inl e"
  then show "estimate_rows_per_chunk env self csv_path size_mb = ([ErrorEstimating e], 10000)"
    by (simp add: estimate_rows_per_chunk_def)
next
  assume "open_csv env csv_path = Inl e"
  then show "estimate_rows_per_chunk env self csv_path size_mb = ([ErrorEstimating e], 10000)"
    by (simp add: estimate_rows_per_chunk_def estimate_try_def read_csv_nrows_def)
next
  assume "open_csv env csv_path = Inr f \<and> next_rows OnSkip 1000 (body f) = Inl e"
  then show "estimate_rows_per_chunk env self csv_path size_mb = ([ErrorEstimating e], 10000)"
    by (simp add: estimate_rows_per_chunk_def estimate_try_def read_csv_nrows_def)
next
  assume a: "read_csv_nrows env csv_path 1000 OnSkip = Inr df \<and> rows df = [] \<and>
    memory_usage env df = 0"
  then have "avg_row_size env df = NaN"
    by (simp add: avg_row_size_def np_true_divide_def)
  then have "float_div (float_round env) (target_chunk_size env self size_mb)
               (avg_row_size env df) = NaN"
    by (cases "target_chunk_size env self size_mb") simp_all
  with a show "estimate_rows_per_chunk env self csv_path size_mb =
      ([ErrorEstimating ValueError], 10000)"
    by (simp add: estimate_rows_per_chunk_def estimate_try_def)
next
  assume a: "read_csv_nrows env csv_path 1000 OnSkip = Inr df \<and> rows df = [] \<and>
    0 < memory_usage env df \<and> target_chunk_size env self size_mb = Fin t"
  then have "avg_row_size env df = PInf"
    by (simp add: avg_row_size_def np_true_divide_def)
  with a have "float_div (float_round env) (target_chunk_size env self size_mb)
               (avg_row_size env df) = Fin 0"
    by simp
  with a show "estimate_rows_per_chunk env self csv_path size_mb = ([], 1000)"
    by (simp add: estimate_rows_per_chunk_def estimate_try_def trunc_def)
qed

theorem estimate_failure_default_witness:
  "estimate_rows_per_chunk
     ((demo_env demo_file (\<lambda>p. WriteOk))\<lparr>open_csv := (\<lambda>p. Inl FileNotFoundError)\<rparr>)
     (init (Fin 250)) ''in.csv'' (Fin 250) = ([ErrorEstimating FileNotFoundError], 10000) \<and>
   estimate_rows_per_chunk
     (demo_env \<lparr>header = [''id''], body = [BadBytes]\<rparr> (\<lambda>p. WriteOk))
     (init (Fin 250)) ''in.csv'' (Fin 250) = ([ErrorEstimating UnicodeDecodeError], 10000) \<and>
   estimate_rows_per_chunk
     ((demo_env header_only (\<lambda>p. WriteOk))\<lparr>memory_usage := (\<lambda>df. 0)\<rparr>)
     (init (Fin 250)) ''in.csv'' (Fin 250) = ([ErrorEstimating ValueError], 10000) \<and>
   estimate_rows_per_chunk (demo_env header_only (\<lambda>p. WriteOk)) (init (Fin 250)) ''in.csv''
     (Fin 250) = ([], 1000)"
proof -
  let ?E1 = "(demo_env demo_file (\<lambda>p. WriteOk))\<lparr>open_csv := (\<lambda>p. Inl FileNotFoundError)\<rparr>"
  let ?E2 = "demo_env \<lparr>header = [''id''], body = [BadBytes]\<rparr> (\<lambda>p. WriteOk)"
  let ?E3 = "(demo_env header_only (\<lambda>p. WriteOk))\<lparr>memory_usage := (\<lambda>df. 0)\<rparr>"
  let ?E4 = "demo_env header_only (\<lambda>p. WriteOk)"
  let ?df = "\<lparr>columns = [''id'', ''v''], rows = []\<rparr>"
  have h1: "open_csv ?E1 ''in.csv'' = Inl FileNotFoundError"
    by (simp add: demo_env_def)
  have h2: "open_csv ?E2 ''in.csv'' = Inr \<lparr>header = [''id''], body = [BadBytes]\<rparr> \<and>
            next_rows OnSkip 1000 (body \<lparr>header = [''id''], body = [BadBytes]\<rparr>) =
              Inl UnicodeDecodeError"
    by (simp add: demo_env_def numeral_eq_Suc)
  have h3: "read_csv_nrows ?E3 ''in.csv'' 1000 OnSkip = Inr ?df \<and> rows ?df = [] \<and>
            memory_usage ?E3 ?df = 0"
    by (simp add: read_csv_nrows_def demo_env_def header_only_def)
  have h4: "read_csv_nrows ?E4 ''in.csv'' 1000 OnSkip = Inr ?df \<and> rows ?df = [] \<and>
            0 < memory_usage ?E4 ?df \<and>
            target_chunk_size ?E4 (init (Fin 250)) (Fin 250) = Fin 262144000"
    by (simp add: header_only_sample target_chunk_size_def init_def)
       (simp add: demo_env_def)
  from estimate_failure_default [of ?E1 "init (Fin 250)" "''in.csv''" "Fin 250"
         FileNotFoundError, THEN conjunct2, THEN conjunct1, rule_format, OF h1]
       estimate_failure_default [of ?E2 "init (Fin 250)" "''in.csv''" "Fin 250"
         UnicodeDecodeError "\<lparr>header = [''id''], body = [BadBytes]\<rparr>",
         THEN conjunct2, THEN conjunct2, THEN conjunct1, rule_format, OF h2]
       estimate_failure_default [of ?E3 "init (Fin 250)" "''in.csv''" "Fin 250" _ _ ?df,
         THEN conjunct2, THEN conjunct2, THEN conjunct2, THEN conjunct1, rule_format, OF h3]
       estimate_failure_default [of ?E4 "init (Fin 250)" "''in.csv''" "Fin 250" _ _ ?df
         262144000,
         THEN conjunct2, THEN conjunct2, THEN conjunct2, THEN conjunct2, rule_format, OF h4]
  show ?thesis by blast
qed

text \<open>
  C4 as stated fails: for a file of a header only the sample has no record, and the
  footprint of the empty frame (its index) is positive, so the value returned is 1000,
  not the default 10000.
\<close>

theorem estimate_zero_records_counterexample:
  "read_csv_nrows (demo_env header_only (\<lambda>p. WriteOk)) ''in.csv'' 1000 OnSkip =
     Inr \<lparr>columns = [''id'', ''v''], rows = []\<rparr> \<and>
   estimate_rows_per_chunk (demo_env header_only (\<lambda>p. WriteOk)) (init (Fin 250)) ''in.csv''
     (Fin 250) = ([], 1000)"
  by (simp add: estimate_rows_per_chunk_def estimate_try_def header_only_sample)
     (simp add: avg_row_size_def np_true_divide_def target_chunk_size_def init_def
        demo_env_def trunc_def)

section \<open>Names of the segment files\<close>

text \<open>The digits of \<open>n\<close> in a field of exactly \<open>k\<close> characters, and the number a string of digits denotes.\<close>

fun fixed_width :: "nat \<Rightarrow> nat \<Rightarrow> string" where
  "fixed_width 0 n = []"
| "fixed_width (Suc k) n = fixed_width k (n div 10) @ [digit_char (n mod 10)]"

definition digits_value :: "string \<Rightarrow> nat" where
  "digits_value s = foldl (\<lambda>acc c. 10 * acc + (of_char c - 48)) 0 s"

lemma of_char_digit: "d < 10 \<Longrightarrow> of_char (digit_char d) = 48 + d"
  by (simp add: digit_char_def)

lemma digit_char_less: "a < 10 \<Longrightarrow> b < 10 \<Longrightarrow> digit_char a < digit_char b \<longleftrightarrow> a < b"
  by (simp add: less_char_def of_char_digit)

lemma digit_char_0: "digit_char 0 = CHR ''0''"
  by (simp add: digit_char_def char_of_eq_iff)

lemma digits_value_snoc:
  "digits_value (s @ [c]) = 10 * digits_value s + (of_char c - 48)"
  by (simp add: digits_value_def)

lemma digits_value_decimal: "digits_value (decimal n) = n"
proof (induction n rule: decimal.induct)
  case (1 n)
  show ?case
  proof (cases "n < 10")
    case True
    then show ?thesis
      by (subst decimal.simps) (simp add: digits_value_def of_char_digit)
  next
    case False
    have "of_char (digit_char (n mod 10)) - 48 = n mod 10"
      by (simp add: of_char_digit)
    then show ?thesis
      using False 1
      by (subst decimal.simps) (simp add: digits_value_snoc)
  qed
qed

lemma digits_value_zeros: "digits_value (replicate k (CHR ''0'') @ s) = digits_value s"
proof -
  have "foldl (\<lambda>acc c. 10 * acc + (of_char c - 48)) 0 (replicate k (CHR ''0'')) = (0::nat)"
    by (induction k) simp_all
  then show ?thesis by (simp add: digits_value_def)
qed

lemma digits_value_format: "digits_value (format_04d n) = n"
  by (simp add: format_04d_def digits_value_zeros digits_value_decimal)

lemma chunk_file_name_inj: "chunk_file_name i = chunk_file_name j \<longleftrightarrow> i = j"
proof
  assume "chunk_file_name i = chunk_file_name j"
  then have "format_04d i = format_04d j"
    by (simp add: chunk_file_name_def)
  then have "digits_value (format_04d i) = digits_value (format_04d j)" by simp
  then show "i = j" by (simp add: digits_value_format)
qed simp

lemma segment_path_inj: "segment_path dir i = segment_path dir j \<longleftrightarrow> i = j"
  by (simp add: segment_path_def chunk_file_name_inj)

lemma length_fixed_width [simp]: "length (fixed_width k n) = k"
  by (induction k arbitrary: n) simp_all

lemma fixed_width_zero: "fixed_width k 0 = replicate k (CHR ''0'')"
  by (induction k) (simp_all add: digit_char_0 replicate_append_same)

lemma length_decimal_le: "0 < k \<Longrightarrow> n < 10 ^ k \<Longrightarrow> length (decimal n) \<le> k"
proof (induction k arbitrary: n)
  case 0
  then show ?case by simp
next
  case (Suc k)
  show ?case
  proof (cases "n < 10")
    case True
    then show ?thesis by (subst decimal.simps) simp
  next
    case False
    with Suc.prems have k: "0 < k" by (cases k) auto
    from Suc.prems have "n div 10 < 10 ^ k" by (simp add: less_mult_imp_div_less mult.commute)
    from Suc.IH [OF k this] False show ?thesis
      by (subst decimal.simps) simp
  qed
qed

lemma pad_decimal:
  "0 < k \<Longrightarrow> n < 10 ^ k \<Longrightarrow>
     replicate (k - length (decimal n)) (CHR ''0'') @ decimal n = fixed_width k n"
proof (induction k arbitrary: n)
  case 0
  then show ?case by simp
next
  case (Suc k)
  show ?case
  proof (cases "n < 10")
    case True
    then show ?thesis
      by (subst (1 2) decimal.simps) (simp add: fixed_width_zero)
  next
    case False
    with Suc.prems have k: "0 < k" by (cases k) auto
    from Suc.prems have lt: "n div 10 < 10 ^ k"
      by (simp add: less_mult_imp_div_less mult.commute)
    have len: "length (decimal (n div 10)) \<le> k" by (rule length_decimal_le [OF k lt])
    have d: "decimal n = decimal (n div 10) @ [digit_char (n mod 10)]"
      using False by (subst decimal.simps) simp
    have "Suc k - length (decimal n) = k - length (decimal (n div 10))"
      by (simp add: d)
    with Suc.IH [OF k lt] show ?thesis by (simp add: d)
  qed
qed

lemma format_04d_fixed: "n < 10000 \<Longrightarrow> format_04d n = fixed_width 4 n"
  using pad_decimal [of 4 n] by (simp add: format_04d_def)

lemma less_append_same_length:
  fixes xs ys :: string
  assumes "xs < ys" "length xs = length ys"
  shows "xs @ us < ys @ vs"
  using assms by (simp add: list_less_def lexord_sufI)

lemma fixed_width_mono: "n < m \<Longrightarrow> m < 10 ^ k \<Longrightarrow> fixed_width k n < fixed_width k m"
proof (induction k arbitrary: n m)
  case 0
  then show ?case by simp
next
  case (Suc k)
  have le: "n div 10 \<le> m div 10" using Suc.prems(1) by (simp add: div_le_mono)
  from Suc.prems have lt: "m div 10 < 10 ^ k"
    by (simp add: less_mult_imp_div_less mult.commute)
  show ?case
  proof (cases "n div 10 = m div 10")
    case True
    with Suc.prems(1) have "n mod 10 < m mod 10"
      by (metis div_mult_mod_eq nat_add_left_cancel_less)
    then have "digit_char (n mod 10) < digit_char (m mod 10)"
      by (simp add: digit_char_less)
    then show ?thesis
      by (simp add: True list_less_def lexord_append_leftI)
  next
    case False
    with le have "n div 10 < m div 10" by simp
    from Suc.IH [OF this lt] show ?thesis
      by (simp add: less_append_same_length)
  qed
qed

lemma chunk_file_name_mono:
  assumes "i < j" "j < 10000"
  shows "chunk_file_name i < chunk_file_name j"
proof -
  from assms have "fixed_width 4 i < fixed_width 4 j"
    by (intro fixed_width_mono) simp_all
  with assms have "format_04d i < format_04d j"
    by (simp add: format_04d_fixed)
  moreover from assms have "length (format_04d i) = length (format_04d j)"
    by (simp add: format_04d_fixed)
  ultimately have "format_04d i @ ''.parquet'' < format_04d j @ ''.parquet''"
    by (rule less_append_same_length)
  then show ?thesis
    unfolding chunk_file_name_def list_less_def by (rule lexord_append_leftI)
qed

lemma dec_small: "n < 10 \<Longrightarrow> decimal n = [digit_char n]"
  by (subst decimal.simps) simp

lemma dec_big: "\<not> n < 10 \<Longrightarrow> decimal n = decimal (n div 10) @ [digit_char (n mod 10)]"
  by (subst decimal.simps) simp

lemma chunk_file_name_examples: "chunk_file_name 10000 = ''chunk_10000.parquet''"
  "chunk_file_name 9999 = ''chunk_9999.parquet''" 
  "chunk_file_name 0 = ''chunk_0000.parquet''"
  "chunk_file_name 12 = ''chunk_0012.parquet''"
  by (simp_all add: chunk_file_name_def format_04d_def dec_small dec_big digit_char_def
        char_of_eq_iff) (simp_all add: numeral_eq_Suc)

section \<open>The conversion loop\<close>

text \<open>
  The loop over the list of the batches: the body of the loop applied to each batch in
  turn, until one raises. \<open>convert_chunks\<close> is this loop over the batches of its reader.
\<close>

fun convert_list ::
  "env \<Rightarrow> converter \<Rightarrow> string \<Rightarrow> nat \<Rightarrow> path list \<Rightarrow> disk \<Rightarrow> frame list \<Rightarrow> exn option
     \<Rightarrow> path list \<times> disk \<times> exn option" where
  "convert_list env self output_dir k created d [] r = (created, d, r)"
| "convert_list env self output_dir k created d (c # cs) r =
     (case write_chunk env self output_dir k c created d of
        (created', d', Some e) \<Rightarrow> (created', d', Some e)
      | (created', d', None) \<Rightarrow> convert_list env self output_dir (Suc k) created' d' cs r)"

lemma convert_chunks_batches:
  "convert_chunks env self output_dir rd k created d =
     (case batches rd of (cs, r) \<Rightarrow> convert_list env self output_dir k created d cs r)"
proof (induction env self output_dir rd k created d rule: convert_chunks.induct)
  case (1 env self output_dir rd chunk_num created_files d)
  show ?case
  proof (cases "next_chunk rd")
    case (Inl e)
    then show ?thesis
      by (subst convert_chunks.simps, subst batches.simps) simp
  next
    case (Inr x)
    show ?thesis
    proof (cases x)
      case None
      with Inr show ?thesis
        by (subst convert_chunks.simps, subst batches.simps) simp
    next
      case (Some y)
      obtain chunk rd' where y: "y = (chunk, rd')" by (cases y)
      obtain created' d' r' where
        w: "write_chunk env self output_dir chunk_num chunk created_files d = (created', d', r')"
        by (cases "write_chunk env self output_dir chunk_num chunk created_files d")
      show ?thesis
      proof (cases r')
        case None
        note IH = 1 [OF Inr Some y [symmetric] w [symmetric] refl None]
        from Inr Some y w None IH show ?thesis
          by (subst convert_chunks.simps, subst batches.simps)
             (simp split: prod.splits)
      next
        case (Some e)
        with Inr \<open>x = Some y\<close> y w show ?thesis
          by (subst convert_chunks.simps, subst batches.simps)
             (simp split: prod.splits)
      qed
    qed
  qed
qed

lemma upt_Suc_shift: "[k..<Suc (k + m)] = k # [Suc k..<Suc (k + m)]"
  by (simp add: upt_conv_Cons)

lemma write_chunk_ok:
  assumes "write_outcome env (segment_path output_dir k) = WriteOk"
  shows "write_chunk env self output_dir k c created d =
           (created @ [segment_path output_dir k],
            d(segment_path output_dir k \<mapsto> Parquet (columns c) (rows c)),
            if bytes_per_mb self = 0 then Some ZeroDivisionError else None)"
  using assms
  by (simp add: write_chunk_def to_parquet_def size_in_mb_def getsize_def Let_def)

lemma write_chunk_fail:
  assumes "write_error (write_outcome env (segment_path output_dir k)) = Some e"
  shows "write_chunk env self output_dir k c created d =
           (created,
            (case write_outcome env (segment_path output_dir k) of
               WriteFailsPartial x \<Rightarrow> d(segment_path output_dir k \<mapsto> Truncated)
             | _ \<Rightarrow> d),
            Some e)"
  using assms
  by (cases "write_outcome env (segment_path output_dir k)")
     (simp_all add: write_chunk_def to_parquet_def Let_def)

lemma write_chunk_cases:
  "write_chunk env self output_dir k c created d = (created', d', r) \<Longrightarrow>
     (write_outcome env (segment_path output_dir k) = WriteOk \<and>
      created' = created @ [segment_path output_dir k] \<and>
      d' = d(segment_path output_dir k \<mapsto> Parquet (columns c) (rows c)) \<and>
      r = (if bytes_per_mb self = 0 then Some ZeroDivisionError else None)) \<or>
     (created' = created \<and> r \<noteq> None \<and>
      r = write_error (write_outcome env (segment_path output_dir k)) \<and>
      (d' = d \<or> d' = d(segment_path output_dir k \<mapsto> Truncated)))"
  by (cases "write_outcome env (segment_path output_dir k)")
     (auto simp: write_chunk_def to_parquet_def size_in_mb_def getsize_def Let_def
           split: if_splits)

lemma write_chunk_frame:
  "write_chunk env self output_dir k c created d = (created', d', r) \<Longrightarrow>
     p \<noteq> segment_path output_dir k \<Longrightarrow> d' p = d p"
  by (drule write_chunk_cases) auto

lemma convert_list_frame:
  "convert_list env self output_dir k created d cs r = (files, d', r') \<Longrightarrow>
     \<forall>j. p \<noteq> segment_path output_dir (k + j) \<Longrightarrow> d' p = d p"
proof (induction cs arbitrary: k created d)
  case Nil
  then show ?case by simp
next
  case (Cons c cs)
  obtain c1 d1 r1 where w: "write_chunk env self output_dir k c created d = (c1, d1, r1)"
    by (cases "write_chunk env self output_dir k c created d")
  from Cons.prems(2) [rule_format, of 0] have "p \<noteq> segment_path output_dir k" by simp
  from write_chunk_frame [OF w this] have d1: "d1 p = d p" .
  show ?case
  proof (cases r1)
    case None
    with Cons.prems(1) w have
      "convert_list env self output_dir (Suc k) c1 d1 cs r = (files, d', r')" by simp
    moreover have "\<forall>j. p \<noteq> segment_path output_dir (Suc k + j)"
      using Cons.prems(2) [rule_format, of "Suc _"] by simp
    ultimately have "d' p = d1 p" by (rule Cons.IH)
    with d1 show ?thesis by simp
  next
    case (Some e)
    with Cons.prems(1) w d1 show ?thesis by simp
  qed
qed

text \<open>The shape of every run of the loop.\<close>

lemma convert_list_shape:
  "convert_list env self output_dir k created d cs r = (files, d', r') \<Longrightarrow>
     \<exists>m\<le>length cs.
       files = created @ map (segment_path output_dir) [k..<k + m] \<and>
       (\<forall>j<m. write_outcome env (segment_path output_dir (k + j)) = WriteOk \<and>
              d' (segment_path output_dir (k + j)) =
                Some (Parquet (columns (cs ! j)) (rows (cs ! j)))) \<and>
       (r' = None \<longrightarrow> m = length cs \<and> r = None)"
proof (induction cs arbitrary: k created d)
  case Nil
  then show ?case by auto
next
  case (Cons c cs)
  obtain c1 d1 r1 where w: "write_chunk env self output_dir k c created d = (c1, d1, r1)"
    by (cases "write_chunk env self output_dir k c created d")
  show ?case
  proof (cases r1)
    case (Some e)
    with Cons.prems w have res: "files = c1" "d' = d1" "r' = Some e" by simp_all
    from write_chunk_cases [OF w] Some
    consider (ok) "write_outcome env (segment_path output_dir k) = WriteOk"
        "c1 = created @ [segment_path output_dir k]"
        "d1 = d(segment_path output_dir k \<mapsto> Parquet (columns c) (rows c))"
      | (fail) "c1 = created" by auto
    then show ?thesis
    proof cases
      case ok
      with res show ?thesis by (intro exI [of _ 1]) simp
    next
      case fail
      with res show ?thesis by (intro exI [of _ 0]) simp
    qed
  next
    case None
    with write_chunk_cases [OF w] have ok:
      "write_outcome env (segment_path output_dir k) = WriteOk"
      "c1 = created @ [segment_path output_dir k]"
      "d1 = d(segment_path output_dir k \<mapsto> Parquet (columns c) (rows c))"
      by auto
    from Cons.prems w None have
      rec: "convert_list env self output_dir (Suc k) c1 d1 cs r = (files, d', r')" by simp
    from Cons.IH [OF rec] obtain m where m: "m \<le> length cs"
      "files = c1 @ map (segment_path output_dir) [Suc k..<Suc k + m]"
      "\<forall>j<m. write_outcome env (segment_path output_dir (Suc k + j)) = WriteOk \<and>
              d' (segment_path output_dir (Suc k + j)) =
                Some (Parquet (columns (cs ! j)) (rows (cs ! j)))"
      "r' = None \<longrightarrow> m = length cs \<and> r = None" by blast
    have "\<forall>j. segment_path output_dir k \<noteq> segment_path output_dir (Suc k + j)"
      by (simp add: segment_path_inj)
    from convert_list_frame [OF rec this] ok
    have first: "d' (segment_path output_dir k) = Some (Parquet (columns c) (rows c))"
      by simp
    have files: "files = created @ map (segment_path output_dir) [k..<k + Suc m]"
      using m(2) ok(2) by (simp add: upt_Suc_shift del: upt_Suc)
    have each: "write_outcome env (segment_path output_dir (k + j)) = WriteOk \<and>
                d' (segment_path output_dir (k + j)) =
                  Some (Parquet (columns ((c # cs) ! j)) (rows ((c # cs) ! j)))"
      if "j < Suc m" for j
    proof (cases j)
      case 0
      with ok first show ?thesis by simp
    next
      case (Suc i)
      with that m(3) show ?thesis by simp
    qed
    from m(1) files each m(4) show ?thesis
      by (intro exI [of _ "Suc m"]) simp
  qed
qed

text \<open>A run up to its first failure.\<close>

lemma convert_list_first_failure:
  assumes "bytes_per_mb self \<noteq> 0"
      and "N \<le> length cs"
      and "\<forall>j<N. write_outcome env (segment_path output_dir (k + j)) = WriteOk"
      and "(N < length cs \<and>
            write_error (write_outcome env (segment_path output_dir (k + N))) = Some e \<and>
            r' = Some e) \<or>
           (N = length cs \<and> r' = r)"
  shows "\<exists>d'. convert_list env self output_dir k created d cs r =
           (created @ map (segment_path output_dir) [k..<k + N], d', r') \<and>
           (N < length cs \<and>
            (\<exists>x. write_outcome env (segment_path output_dir (k + N)) = WriteFailsPartial x)
            \<longrightarrow> d' (segment_path output_dir (k + N)) = Some Truncated) \<and>
           (\<forall>p. (\<forall>j\<le>N. p \<noteq> segment_path output_dir (k + j)) \<longrightarrow> d' p = d p)"
  using assms
proof (induction cs arbitrary: k created d N)
  case Nil
  then show ?case by simp
next
  case (Cons c cs)
  show ?case
  proof (cases N)
    case 0
    with Cons.prems(4) have
      f: "write_error (write_outcome env (segment_path output_dir k)) = Some e" "r' = Some e"
      by auto
    from write_chunk_fail [OF f(1)] f(2) 0 show ?thesis
      by (auto split: write_result.splits)
  next
    case (Suc M)
    with Cons.prems(3) have
      ok: "write_outcome env (segment_path output_dir k) = WriteOk" by force
    have 1: "M \<le> length cs" using Suc Cons.prems(2) by simp
    have 2: "\<forall>j<M. write_outcome env (segment_path output_dir (Suc k + j)) = WriteOk"
      using Cons.prems(3) Suc by (metis Suc_less_eq add_Suc_shift)
    have 3: "(M < length cs \<and>
            write_error (write_outcome env (segment_path output_dir (Suc k + M))) = Some e \<and>
            r' = Some e) \<or> (M = length cs \<and> r' = r)"
      using Cons.prems(4) Suc by simp
    from Cons.IH [OF Cons.prems(1) 1 2 3,
        of "created @ [segment_path output_dir k]"
           "d(segment_path output_dir k \<mapsto> Parquet (columns c) (rows c))"]
    obtain d' where d':
      "convert_list env self output_dir (Suc k) (created @ [segment_path output_dir k])
         (d(segment_path output_dir k \<mapsto> Parquet (columns c) (rows c))) cs r =
       ((created @ [segment_path output_dir k]) @
          map (segment_path output_dir) [Suc k..<Suc k + M], d', r')"
      "M < length cs \<and>
         (\<exists>x. write_outcome env (segment_path output_dir (Suc k + M)) = WriteFailsPartial x)
       \<longrightarrow> d' (segment_path output_dir (Suc k + M)) = Some Truncated"
      "\<forall>p. (\<forall>j\<le>M. p \<noteq> segment_path output_dir (Suc k + j)) \<longrightarrow>
           d' p = (d(segment_path output_dir k \<mapsto> Parquet (columns c) (rows c))) p"
      by blast
    have frame: "d' p = d p" if "\<forall>j\<le>Suc M. p \<noteq> segment_path output_dir (k + j)" for p
    proof -
      from that [rule_format, of 0] have p0: "p \<noteq> segment_path output_dir k" by simp
      have "\<forall>j\<le>M. p \<noteq> segment_path output_dir (Suc k + j)"
        using that [rule_format, of "Suc _"] by simp
      with d'(3) p0 show ?thesis by simp
    qed
    show ?thesis
      using d'(1,2) Suc Cons.prems(1) frame
      by (intro exI [of _ d']) (simp add: write_chunk_ok [OF ok] upt_Suc_shift del: upt_Suc)
  qed
qed

section \<open>The batches of the reader\<close>







lemma chunk_iterator_cases:
  "(\<exists>e. open_csv env input_csv = Inl e \<and> chunk_iterator env self input_csv = Inl e) \<or>
   (\<exists>f. open_csv env input_csv = Inr f \<and>
        chunk_iterator env self input_csv =
          Inr \<lparr>rd_columns = header f, pending = body f, first_chunk = True,
               chunksize = nat (snd (estimate_rows_per_chunk env self input_csv
                                      (chunk_size_mb self))),
               on_bad_lines = OnSkip\<rparr>)"
proof -
  have "1000 \<le> snd (estimate_rows_per_chunk env self input_csv (chunk_size_mb self))"
    by (rule estimate_ge_1000)
  then have "\<not> nat (snd (estimate_rows_per_chunk env self input_csv (chunk_size_mb self))) < 1"
    by simp
  then show ?thesis
    by (cases "open_csv env input_csv") (simp_all add: chunk_iterator_def read_csv_chunks_def)
qed


text \<open>What \<open>convert_try\<close> returns, from the run of the loop over the batches.\<close>

lemma convert_try_run:
  assumes "chunk_iterator env self input_csv = Inr rd"
      and "batches rd = (cs, r)"
      and "convert_list env self output_dir 0 [] d cs r = (files, d', r')"
      and "rpc = snd (estimate_rows_per_chunk env self input_csv (chunk_size_mb self))"
  shows "\<exists>log5. convert_try env self input_csv output_dir rpc d = (files, d', log5) \<and>
           (\<forall>e. r' = Some e \<longrightarrow> log5 = [ErrorDuringConversion e]) \<and>
           ((\<forall>e. ErrorDuringConversion e \<notin> set log5) \<longrightarrow> r' = None)"
proof -
  from assms(1,4) have "read_csv_chunks env input_csv (nat rpc) OnSkip = Inr rd"
    by (simp add: chunk_iterator_def)
  moreover from assms(2,3) have
    "convert_chunks env self output_dir rd 0 [] d = (files, d', r')"
    by (simp add: convert_chunks_batches)
  ultimately show ?thesis
    by (cases r') (auto simp: convert_try_def split: prod.splits option.splits)
qed

lemma convert_try_unreadable:
  assumes "open_csv env input_csv = Inl e"
  shows "convert_try env self input_csv output_dir rpc d = ([], d, [ErrorDuringConversion e])
         \<or> convert_try env self input_csv output_dir rpc d =
             ([], d, [ErrorDuringConversion ValueError])"
  using assms by (simp add: convert_try_def read_csv_chunks_def)

text \<open>What \<open>split_and_convert\<close> returns once the directory exists.\<close>

lemma split_and_convert_run:
  assumes "mkdir env output_dir = None"
      and "self' = set_chunk_size self size_mb"
      and "rpc = snd (estimate_rows_per_chunk env self' input_csv (chunk_size_mb self'))"
  shows "\<exists>pre. split_and_convert env self input_csv output_dir size_mb d =
           \<lparr>self_after = self',
            returned = Inr (fst (convert_try env self' input_csv output_dir rpc d)),
            disk_after = fst (snd (convert_try env self' input_csv output_dir rpc d)),
            printed = pre @ snd (snd (convert_try env self' input_csv output_dir rpc d))\<rparr>"
proof -
  have "1000 \<le> rpc" unfolding assms(3) by (rule estimate_ge_1000)
  then have nz: "rpc \<noteq> 0" by simp
  obtain log1 total where g: "get_total_rows env input_csv = (log1, total)"
    by (cases "get_total_rows env input_csv")
  obtain log2 where e:
    "estimate_rows_per_chunk env self' input_csv (chunk_size_mb self') = (log2, rpc)"
    unfolding assms(3) by (cases "estimate_rows_per_chunk env self' input_csv (chunk_size_mb self')") simp
  from nz have "\<exists>x. plan_chunks total rpc = Inr x"
    by (cases total) (simp_all add: plan_chunks_def)
  then obtain log3 tc where p: "plan_chunks total rpc = Inr (log3, tc)"
    by auto
  obtain files d' log5 where t:
    "convert_try env self' input_csv output_dir rpc d = (files, d', log5)"
    by (cases "convert_try env self' input_csv output_dir rpc d")
  show ?thesis
    using assms(1) g e p t
    by (simp add: split_and_convert_def convert_with_total_def Let_def assms(2) [symmetric])
qed

section \<open>Runs of \<open>split_and_convert\<close>\<close>

text \<open>
  A file of 1000 records, a bad line and 500 more records, and writes that succeed except
  the one to the second segment of \<open>out\<close>, which leaves a truncated file.
\<close>

definition two_batch_file :: csv_file where
  "two_batch_file =
     \<lparr>header = [''id''],
      body = replicate 1000 (Record [''7'']) @ TooManyFields # replicate 500 (Record [''8''])\<rparr>"

definition fail_second :: "path \<Rightarrow> write_result" where
  "fail_second p = (if p = segment_path ''out'' 1 then WriteFailsPartial OSError else WriteOk)"

lemma bytes_per_mb_set_chunk_size [simp]:
  "bytes_per_mb (set_chunk_size self size_mb) = bytes_per_mb self"
  by (cases size_mb) (simp_all add: set_chunk_size_def)

lemma run_outcome:
  assumes "mkdir env output_dir = None"
      and "chunk_iterator env (set_chunk_size self size_mb) input_csv = Inr rd"
      and "batches rd = (cs, r)"
      and "convert_list env (set_chunk_size self size_mb) output_dir 0 [] d cs r = (files, d', r')"
  shows "returned (split_and_convert env self input_csv output_dir size_mb d) = Inr files \<and>
         disk_after (split_and_convert env self input_csv output_dir size_mb d) = d' \<and>
         (\<forall>e. r' = Some e \<longrightarrow>
            ErrorDuringConversion e
              \<in> set (printed (split_and_convert env self input_csv output_dir size_mb d))) \<and>
         ((\<forall>e. ErrorDuringConversion e
              \<notin> set (printed (split_and_convert env self input_csv output_dir size_mb d)))
            \<longrightarrow> r' = None)"
proof -
  let ?self = "set_chunk_size self size_mb"
  let ?rpc = "snd (estimate_rows_per_chunk env ?self input_csv (chunk_size_mb ?self))"
  from split_and_convert_run [where self = self and size_mb = size_mb
         and input_csv = input_csv and d = d, OF assms(1) refl refl]
  obtain pre where s: "split_and_convert env self input_csv output_dir size_mb d =
           \<lparr>self_after = ?self,
            returned = Inr (fst (convert_try env ?self input_csv output_dir ?rpc d)),
            disk_after = fst (snd (convert_try env ?self input_csv output_dir ?rpc d)),
            printed = pre @ snd (snd (convert_try env ?self input_csv output_dir ?rpc d))\<rparr>"
    by blast
  from convert_try_run [OF assms(2,3,4) refl]
  obtain log5 where t: "convert_try env ?self input_csv output_dir ?rpc d = (files, d', log5)"
    "\<forall>e. r' = Some e \<longrightarrow> log5 = [ErrorDuringConversion e]"
    "(\<forall>e. ErrorDuringConversion e \<notin> set log5) \<longrightarrow> r' = None"
    by blast
  show ?thesis unfolding s using t by auto
qed

lemma run_unreadable:
  assumes "mkdir env output_dir = None"
      and "open_csv env input_csv = Inl e"
  shows "returned (split_and_convert env self input_csv output_dir size_mb d) = Inr [] \<and>
         disk_after (split_and_convert env self input_csv output_dir size_mb d) = d \<and>
         ErrorDuringConversion e
           \<in> set (printed (split_and_convert env self input_csv output_dir size_mb d))"
proof -
  let ?self = "set_chunk_size self size_mb"
  let ?rpc = "snd (estimate_rows_per_chunk env ?self input_csv (chunk_size_mb ?self))"
  from split_and_convert_run [where self = self and size_mb = size_mb
         and input_csv = input_csv and d = d, OF assms(1) refl refl]
  obtain pre where s: "split_and_convert env self input_csv output_dir size_mb d =
           \<lparr>self_after = ?self,
            returned = Inr (fst (convert_try env ?self input_csv output_dir ?rpc d)),
            disk_after = fst (snd (convert_try env ?self input_csv output_dir ?rpc d)),
            printed = pre @ snd (snd (convert_try env ?self input_csv output_dir ?rpc d))\<rparr>"
    by blast
  from chunk_iterator_cases [of env input_csv ?self] assms(2)
  have "read_csv_chunks env input_csv (nat ?rpc) OnSkip = Inl e"
    by (simp add: chunk_iterator_def)
  then have "convert_try env ?self input_csv output_dir ?rpc d =
               ([], d, [ErrorDuringConversion e])"
    by (simp add: convert_try_def)
  with s show ?thesis by simp
qed

lemma run_first_failure:
  assumes "mkdir env output_dir = None"
      and "bytes_per_mb self \<noteq> 0"
      and "chunk_iterator env (set_chunk_size self size_mb) input_csv = Inr rd"
      and "batches rd = (cs, r)"
      and "N \<le> length cs"
      and "\<forall>i<N. write_outcome env (segment_path output_dir i) = WriteOk"
      and "(N < length cs \<and>
            write_error (write_outcome env (segment_path output_dir N)) = Some e) \<or>
           (N = length cs \<and> r = Some e)"
  shows "returned (split_and_convert env self input_csv output_dir size_mb d) =
           Inr (map (segment_path output_dir) [0..<N]) \<and>
         (\<forall>i<N. disk_after (split_and_convert env self input_csv output_dir size_mb d)
                  (segment_path output_dir i) =
                Some (Parquet (columns (cs ! i)) (rows (cs ! i)))) \<and>
         ErrorDuringConversion e
           \<in> set (printed (split_and_convert env self input_csv output_dir size_mb d)) \<and>
         (N < length cs \<and>
            (\<exists>x. write_outcome env (segment_path output_dir N) = WriteFailsPartial x)
            \<longrightarrow> disk_after (split_and_convert env self input_csv output_dir size_mb d)
                  (segment_path output_dir N) = Some Truncated) \<and>
         (\<forall>p. (\<forall>j\<le>N. p \<noteq> segment_path output_dir j) \<longrightarrow>
            disk_after (split_and_convert env self input_csv output_dir size_mb d) p = d p)"
proof -
  let ?self = "set_chunk_size self size_mb"
  have b: "bytes_per_mb ?self \<noteq> 0" using assms(2) by simp
  have 6: "\<forall>j<N. write_outcome env (segment_path output_dir (0 + j)) = WriteOk"
    using assms(6) by simp
  have 7: "(N < length cs \<and>
            write_error (write_outcome env (segment_path output_dir (0 + N))) = Some e \<and>
            Some e = Some e) \<or> (N = length cs \<and> Some e = r)"
    using assms(7) by auto
  from convert_list_first_failure [OF b assms(5) 6 7, of "[]" d]
  obtain d' where run:
    "convert_list env ?self output_dir 0 [] d cs r =
       (map (segment_path output_dir) [0..<N], d', Some e)"
    "N < length cs \<and>
       (\<exists>x. write_outcome env (segment_path output_dir N) = WriteFailsPartial x)
     \<longrightarrow> d' (segment_path output_dir N) = Some Truncated"
    "\<forall>p. (\<forall>j\<le>N. p \<noteq> segment_path output_dir j) \<longrightarrow> d' p = d p"
    by auto
  from convert_list_shape [OF run(1)] obtain m where m:
    "map (segment_path output_dir) [0..<N] = [] @ map (segment_path output_dir) [0..<0 + m]"
    "\<forall>j<m. write_outcome env (segment_path output_dir (0 + j)) = WriteOk \<and>
            d' (segment_path output_dir (0 + j)) =
              Some (Parquet (columns (cs ! j)) (rows (cs ! j)))"
    by blast
  from m(1) have "length (map (segment_path output_dir) [0..<N]) =
                  length (map (segment_path output_dir) [0..<m])" by simp
  then have "m = N" by simp
  with m(2) have disk: "\<forall>i<N. d' (segment_path output_dir i) =
              Some (Parquet (columns (cs ! i)) (rows (cs ! i)))" by simp
  from run_outcome [OF assms(1,3,4) run(1)] run(2,3) disk show ?thesis by simp
qed

lemma next_rows_replicate_exact:
  "next_rows pol n (replicate n (Record r) @ ls) = Inr (replicate n r, ls)"
  by (induction n) simp_all

lemma next_rows_replicate_short:
  "m \<le> n \<Longrightarrow> next_rows pol n (replicate m (Record r)) = Inr (replicate m r, [])"
proof (induction m arbitrary: n)
  case 0
  then show ?case by simp
next
  case (Suc m)
  then obtain k where "n = Suc k" "m \<le> k" by (cases n) auto
  with Suc.IH [of k] show ?case by simp
qed

lemma next_rows_skip:
  "0 < n \<Longrightarrow> next_rows OnSkip n (TooManyFields # ls) = next_rows OnSkip n ls"
  by (cases n) simp_all

lemma two_batch_sample:
  "read_csv_nrows (demo_env two_batch_file w) p 1000 OnSkip =
     Inr \<lparr>columns = [''id''], rows = replicate 1000 [''7'']\<rparr>"
  by (simp add: read_csv_nrows_def demo_env_def two_batch_file_def next_rows_replicate_exact)

lemma two_batch_estimate:
  assumes "bytes_per_mb self = 1024 * 1024"
  shows "estimate_rows_per_chunk (demo_env two_batch_file w) self p (Fin (1 / 1024)) =
           ([], 1000)"
proof -
  have "estimate_try (demo_env two_batch_file w) self p (Fin (1 / 1024)) = Inr 1000"
    using assms
    by (simp add: estimate_try_def two_batch_sample)
       (simp add: avg_row_size_def np_true_divide_def target_chunk_size_def demo_env_def
          trunc_def floor_eq_iff)
  then show ?thesis by (simp add: estimate_rows_per_chunk_def)
qed

lemma two_batch_iterator:
  "chunk_iterator (demo_env two_batch_file w) (set_chunk_size (init (Fin 250)) (Some (Fin (1 / 1024))))
     ''in.csv'' =
   Inr \<lparr>rd_columns = [''id''],
        pending = replicate 1000 (Record [''7'']) @ TooManyFields # replicate 500 (Record [''8'']),
        first_chunk = True, chunksize = 1000, on_bad_lines = OnSkip\<rparr>"
proof -
  have "bytes_per_mb (set_chunk_size (init (Fin 250)) (Some (Fin (1 / 1024)))) = 1024 * 1024"
    by (simp add: init_def)
  from two_batch_estimate [OF this]
  have "snd (estimate_rows_per_chunk (demo_env two_batch_file w)
              (set_chunk_size (init (Fin 250)) (Some (Fin (1 / 1024)))) ''in.csv''
              (chunk_size_mb (set_chunk_size (init (Fin 250)) (Some (Fin (1 / 1024)))))) = 1000"
    by (simp add: set_chunk_size_def)
  then show ?thesis
    by (simp add: chunk_iterator_def read_csv_chunks_def)
       (simp add: demo_env_def two_batch_file_def)
qed

lemma two_batch_batches:
  "batches \<lparr>rd_columns = [''id''],
        pending = replicate 1000 (Record [''7'']) @ TooManyFields # replicate 500 (Record [''8'']),
        first_chunk = True, chunksize = 1000, on_bad_lines = OnSkip\<rparr> =
   ([\<lparr>columns = [''id''], rows = replicate 1000 [''7'']\<rparr>,
     \<lparr>columns = [''id''], rows = replicate 500 [''8'']\<rparr>], None)"
proof -
  let ?rd3 = "\<lparr>rd_columns = [''id''], pending = [], first_chunk = False, chunksize = 1000,
               on_bad_lines = OnSkip\<rparr>"
  let ?rd2 = "\<lparr>rd_columns = [''id''],
               pending = TooManyFields # replicate 500 (Record [''8'']),
               first_chunk = False, chunksize = 1000, on_bad_lines = OnSkip\<rparr>"
  have 3: "batches ?rd3 = ([], None)"
    by (subst batches.simps) (simp add: next_chunk_def)
  have "next_chunk ?rd2 = Inr (Some (\<lparr>columns = [''id''], rows = replicate 500 [''8'']\<rparr>, ?rd3))"
    by (simp add: next_chunk_def next_rows_skip next_rows_replicate_short)
  then have 2: "batches ?rd2 = ([\<lparr>columns = [''id''], rows = replicate 500 [''8'']\<rparr>], None)"
    by (subst batches.simps) (simp add: 3)
  show ?thesis
    by (subst batches.simps) (simp add: next_chunk_def next_rows_replicate_exact 2)
qed

lemma frame_eta: "\<lparr>columns = columns c, rows = rows c\<rparr> = (c :: frame)"
  by simp

section \<open>Partial failure\<close>

text \<open>
  C1. Let the directory exist, and let the batches of the input be \<open>cs\<close>. If the writes
  of the batches before \<open>N\<close> succeed and batch \<open>N\<close> fails with \<open>e\<close> (its write fails,
  or reading it raises: the iterator ends with \<open>e\<close> after \<open>N\<close> batches), then
  \<open>split_and_convert\<close> returns the paths of the segments \<open>0..N-1\<close> and no more, each
  of these reads back on the disk it leaves as its batch, \<open>e\<close> is printed, not raised, and
  no path but those of the segments \<open>0..N\<close> has changed on the disk: the loop has stopped.
\<close>

theorem partial_failure_retains_segments:
  assumes "mkdir env output_dir = None"
      and "bytes_per_mb self \<noteq> 0"
      and "chunk_iterator env (set_chunk_size self size_mb) input_csv = Inr rd"
      and "batches rd = (cs, r)"
      and "N \<le> length cs"
      and "\<forall>i<N. write_outcome env (segment_path output_dir i) = WriteOk"
      and "(N < length cs \<and>
            write_error (write_outcome env (segment_path output_dir N)) = Some e) \<or>
           (N = length cs \<and> r = Some e)"
  shows "returned (split_and_convert env self input_csv output_dir size_mb d) =
           Inr (map (segment_path output_dir) [0..<N]) \<and>
         (\<forall>i<N. read_parquet (disk_after (split_and_convert env self input_csv output_dir size_mb d))
                  (segment_path output_dir i) = Inr (cs ! i)) \<and>
         ErrorDuringConversion e
           \<in> set (printed (split_and_convert env self input_csv output_dir size_mb d)) \<and>
         (\<forall>p. (\<forall>j\<le>N. p \<noteq> segment_path output_dir j) \<longrightarrow>
            disk_after (split_and_convert env self input_csv output_dir size_mb d) p = d p)"
  using run_first_failure [OF assms, of d]
  by (simp add: read_parquet_def)

theorem partial_failure_retains_segments_witness:
  "returned (split_and_convert (demo_env two_batch_file fail_second) (init (Fin 250))
      ''in.csv'' ''out'' (Some (Fin (1 / 1024))) Map.empty) =
     Inr [Path ''out'' ''chunk_0000.parquet''] \<and>
   read_parquet
     (disk_after (split_and_convert (demo_env two_batch_file fail_second) (init (Fin 250))
        ''in.csv'' ''out'' (Some (Fin (1 / 1024))) Map.empty))
     (Path ''out'' ''chunk_0000.parquet'') =
     Inr \<lparr>columns = [''id''], rows = replicate 1000 [''7'']\<rparr> \<and>
   ErrorDuringConversion OSError
     \<in> set (printed (split_and_convert (demo_env two_batch_file fail_second) (init (Fin 250))
          ''in.csv'' ''out'' (Some (Fin (1 / 1024))) Map.empty))"
proof -
  let ?E = "demo_env two_batch_file fail_second"
  have h1: "mkdir ?E ''out'' = None" by (simp add: demo_env_def)
  have h2: "bytes_per_mb (init (Fin 250)) \<noteq> 0" by (simp add: init_def)
  have h5: "(1::nat) \<le> length [\<lparr>columns = [''id''], rows = replicate 1000 [''7'']\<rparr>,
     \<lparr>columns = [''id''], rows = replicate 500 [''8'']\<rparr>]" by simp
  have h6: "\<forall>i<1. write_outcome ?E (segment_path ''out'' i) = WriteOk"
    by (simp add: demo_env_def fail_second_def segment_path_inj)
  have h7: "(1 < length [\<lparr>columns = [''id''], rows = replicate 1000 [''7'']\<rparr>,
     \<lparr>columns = [''id''], rows = replicate 500 [''8'']\<rparr>] \<and>
     write_error (write_outcome ?E (segment_path ''out'' 1)) = Some OSError) \<or>
     (1 = length [\<lparr>columns = [''id''], rows = replicate 1000 [''7'']\<rparr>,
     \<lparr>columns = [''id''], rows = replicate 500 [''8'']\<rparr>] \<and> None = Some OSError)"
    by (simp add: demo_env_def fail_second_def)
  have p0: "segment_path ''out'' 0 = Path ''out'' ''chunk_0000.parquet''"
    by (simp add: segment_path_def chunk_file_name_examples)
  from partial_failure_retains_segments
         [OF h1 h2 two_batch_iterator two_batch_batches h5 h6 h7, of Map.empty]
  show ?thesis by (simp add: p0)
qed

lemma run_raises:
  assumes "mkdir env output_dir = Some e"
  shows "split_and_convert env self input_csv output_dir size_mb d =
           \<lparr>self_after = set_chunk_size self size_mb, returned = Inl e, disk_after = d,
            printed = []\<rparr>"
  using assms by (simp add: split_and_convert_def)

lemma report_sizes_ok:
  assumes "bytes_per_mb self \<noteq> 0"
      and "\<forall>p\<in>set files. d p \<noteq> None"
  shows "snd (report_sizes env self d files) = None \<and>
         (\<forall>e. ErrorDuringConversion e \<notin> set (fst (report_sizes env self d files)))"
  using assms(2)
proof (induction files)
  case Nil
  then show ?case by simp
next
  case (Cons p files)
  then obtain f where "d p = Some f" by auto
  with Cons assms(1) show ?case
    by (auto simp: size_in_mb_def getsize_def split: prod.splits)
qed

lemma convert_try_quiet:
  assumes "chunk_iterator env self input_csv = Inr rd"
      and "batches rd = (cs, r)"
      and "convert_list env self output_dir 0 [] d cs r = (files, d', None)"
      and "rpc = snd (estimate_rows_per_chunk env self input_csv (chunk_size_mb self))"
      and "bytes_per_mb self \<noteq> 0"
      and "\<forall>p\<in>set files. d' p \<noteq> None"
  shows "\<forall>e. ErrorDuringConversion e
           \<notin> set (snd (snd (convert_try env self input_csv output_dir rpc d)))"
proof -
  from assms(1,4) have "read_csv_chunks env input_csv (nat rpc) OnSkip = Inr rd"
    by (simp add: chunk_iterator_def)
  moreover from assms(2,3) have
    "convert_chunks env self output_dir rd 0 [] d = (files, d', None)"
    by (simp add: convert_chunks_batches)
  moreover obtain ms rr where rs: "report_sizes env self d' files = (ms, rr)"
    by (cases "report_sizes env self d' files")
  moreover from report_sizes_ok [OF assms(5,6), of env] rs
  have "rr = None" "\<forall>e. ErrorDuringConversion e \<notin> set ms" by simp_all
  ultimately show ?thesis
    by (simp add: convert_try_def)
qed

lemma prelude_quiet:
  assumes "mkdir env output_dir = None"
      and "self' = set_chunk_size self size_mb"
      and "rpc = snd (estimate_rows_per_chunk env self' input_csv (chunk_size_mb self'))"
      and "\<forall>e. ErrorDuringConversion e
             \<notin> set (snd (snd (convert_try env self' input_csv output_dir rpc d)))"
  shows "\<forall>e. ErrorDuringConversion e
           \<notin> set (printed (split_and_convert env self input_csv output_dir size_mb d))"
proof -
  have "1000 \<le> rpc" unfolding assms(3) by (rule estimate_ge_1000)
  then have nz: "rpc \<noteq> 0" by simp
  obtain log1 total_rows where g: "get_total_rows env input_csv = (log1, total_rows)"
    by (cases "get_total_rows env input_csv")
  have l1: "\<forall>e. ErrorDuringConversion e \<notin> set log1"
    using g by (auto simp: get_total_rows_def split: sum.splits)
  obtain log2 where e:
    "estimate_rows_per_chunk env self' input_csv (chunk_size_mb self') = (log2, rpc)"
    unfolding assms(3)
    by (cases "estimate_rows_per_chunk env self' input_csv (chunk_size_mb self')") simp
  have l2: "\<forall>e. ErrorDuringConversion e \<notin> set log2"
    using e by (auto simp: estimate_rows_per_chunk_def split: sum.splits)
  from nz have "\<exists>x. plan_chunks total_rows rpc = Inr x"
    by (cases total_rows) (simp_all add: plan_chunks_def)
  then obtain log3 tc where p: "plan_chunks total_rows rpc = Inr (log3, tc)"
    by auto
  have l3: "\<forall>e. ErrorDuringConversion e \<notin> set log3"
    using p by (auto simp: plan_chunks_def split: option.splits if_splits)
  obtain files d' log5 where t:
    "convert_try env self' input_csv output_dir rpc d = (files, d', log5)"
    by (cases "convert_try env self' input_csv output_dir rpc d")
  with assms(4) have l5: "\<forall>e. ErrorDuringConversion e \<notin> set log5" by simp
  have "printed (split_and_convert env self input_csv output_dir size_mb d) =
          log1 @ log2 @ log3 @
          ([Processing input_csv, EstimatedRows rpc] @
           (case tc of None \<Rightarrow> [] | Some c \<Rightarrow> if c = 0 then [] else [ExpectedChunks c])) @
          log5"
    using assms(1) g e p t
    by (simp add: split_and_convert_def convert_with_total_def Let_def assms(2) [symmetric])
  with l1 l2 l3 l5 show ?thesis
    by (auto split: option.splits if_splits)
qed

lemma run_complete:
  assumes "mkdir env output_dir = None"
      and "bytes_per_mb self \<noteq> 0"
      and "chunk_iterator env (set_chunk_size self size_mb) input_csv = Inr rd"
      and "batches rd = (cs, None)"
      and "\<forall>i<length cs. write_outcome env (segment_path output_dir i) = WriteOk"
  shows "returned (split_and_convert env self input_csv output_dir size_mb d) =
           Inr (map (segment_path output_dir) [0..<length cs]) \<and>
         (\<forall>i<length cs. disk_after (split_and_convert env self input_csv output_dir size_mb d)
                  (segment_path output_dir i) =
                Some (Parquet (columns (cs ! i)) (rows (cs ! i)))) \<and>
         (\<forall>e. ErrorDuringConversion e
            \<notin> set (printed (split_and_convert env self input_csv output_dir size_mb d)))"
proof -
  let ?self = "set_chunk_size self size_mb"
  let ?rpc = "snd (estimate_rows_per_chunk env ?self input_csv (chunk_size_mb ?self))"
  have b: "bytes_per_mb ?self \<noteq> 0" using assms(2) by simp
  have 5: "\<forall>j<length cs. write_outcome env (segment_path output_dir (0 + j)) = WriteOk"
    using assms(5) by simp
  have 6: "(length cs < length cs \<and>
            write_error (write_outcome env (segment_path output_dir (0 + length cs))) =
              Some OSError \<and> None = Some OSError) \<or>
           (length cs = length cs \<and> (None :: exn option) = None)"
    by simp
  from convert_list_first_failure [OF b le_refl 5 6, of "[]" d]
  obtain d' where run:
    "convert_list env ?self output_dir 0 [] d cs None =
       (map (segment_path output_dir) [0..<length cs], d', None)"
    by auto
  from convert_list_shape [OF run] obtain m where m:
    "map (segment_path output_dir) [0..<length cs] =
       [] @ map (segment_path output_dir) [0..<0 + m]"
    "\<forall>j<m. write_outcome env (segment_path output_dir (0 + j)) = WriteOk \<and>
            d' (segment_path output_dir (0 + j)) =
              Some (Parquet (columns (cs ! j)) (rows (cs ! j)))"
    by blast
  from m(1) have "length (map (segment_path output_dir) [0..<length cs]) =
                  length (map (segment_path output_dir) [0..<m])" by simp
  then have "m = length cs" by simp
  with m(2) have disk: "\<forall>i<length cs. d' (segment_path output_dir i) =
              Some (Parquet (columns (cs ! i)) (rows (cs ! i)))" by simp
  then have ex: "\<forall>p\<in>set (map (segment_path output_dir) [0..<length cs]). d' p \<noteq> None"
    by auto
  from convert_try_quiet [OF assms(3,4) run refl b ex]
  have "\<forall>e. ErrorDuringConversion e
           \<notin> set (snd (snd (convert_try env ?self input_csv output_dir ?rpc d)))" .
  from prelude_quiet [OF assms(1) refl refl this]
       run_outcome [OF assms(1,3,4) run] disk
  show ?thesis by simp
qed

lemma run_shape:
  assumes "mkdir env output_dir = None"
  shows "\<exists>m. returned (split_and_convert env self input_csv output_dir size_mb d) =
               Inr (map (segment_path output_dir) [0..<m]) \<and>
             (\<forall>i<m. \<exists>cols rs.
                disk_after (split_and_convert env self input_csv output_dir size_mb d)
                  (segment_path output_dir i) = Some (Parquet cols rs))"
proof (cases "chunk_iterator env (set_chunk_size self size_mb) input_csv")
  case (Inl e)
  with chunk_iterator_cases [of env input_csv "set_chunk_size self size_mb"]
  have "open_csv env input_csv = Inl e" by auto
  from run_unreadable [OF assms this, of self size_mb d] show ?thesis
    by (intro exI [of _ 0]) simp
next
  case (Inr rd)
  obtain cs r where b: "batches rd = (cs, r)" by (cases "batches rd")
  obtain files d' r' where run:
    "convert_list env (set_chunk_size self size_mb) output_dir 0 [] d cs r = (files, d', r')"
    by (cases "convert_list env (set_chunk_size self size_mb) output_dir 0 [] d cs r")
  from convert_list_shape [OF run] obtain m where m:
    "files = [] @ map (segment_path output_dir) [0..<0 + m]"
    "\<forall>j<m. write_outcome env (segment_path output_dir (0 + j)) = WriteOk \<and>
            d' (segment_path output_dir (0 + j)) =
              Some (Parquet (columns (cs ! j)) (rows (cs ! j)))"
    by blast
  from run_outcome [OF assms Inr b run] m show ?thesis
    by (intro exI [of _ m]) simp
qed

lemma length_format_04d: "4 \<le> length (format_04d i)"
  by (simp add: format_04d_def)

lemma two_batch_ok_run:
  "returned (split_and_convert (demo_env two_batch_file (\<lambda>p. WriteOk)) (init (Fin 250))
      ''in.csv'' ''out'' (Some (Fin (1 / 1024))) Map.empty) =
     Inr [Path ''out'' ''chunk_0000.parquet'', Path ''out'' ''chunk_0001.parquet''] \<and>
   disk_after (split_and_convert (demo_env two_batch_file (\<lambda>p. WriteOk)) (init (Fin 250))
      ''in.csv'' ''out'' (Some (Fin (1 / 1024))) Map.empty)
     (Path ''out'' ''chunk_0000.parquet'') = Some (Parquet [''id''] (replicate 1000 [''7''])) \<and>
   disk_after (split_and_convert (demo_env two_batch_file (\<lambda>p. WriteOk)) (init (Fin 250))
      ''in.csv'' ''out'' (Some (Fin (1 / 1024))) Map.empty)
     (Path ''out'' ''chunk_0001.parquet'') = Some (Parquet [''id''] (replicate 500 [''8''])) \<and>
   (\<forall>e. ErrorDuringConversion e \<notin> set (printed
      (split_and_convert (demo_env two_batch_file (\<lambda>p. WriteOk)) (init (Fin 250))
         ''in.csv'' ''out'' (Some (Fin (1 / 1024))) Map.empty)))"
proof -
  let ?E = "demo_env two_batch_file (\<lambda>p. WriteOk)"
  let ?cs = "[\<lparr>columns = [''id''], rows = replicate 1000 [''7'']\<rparr>,
              \<lparr>columns = [''id''], rows = replicate 500 [''8'']\<rparr>]"
  have h1: "mkdir ?E ''out'' = None" by (simp add: demo_env_def)
  have h2: "bytes_per_mb (init (Fin 250)) \<noteq> 0" by (simp add: init_def)
  have h5: "\<forall>i<length ?cs. write_outcome ?E (segment_path ''out'' i) = WriteOk"
    by (simp add: demo_env_def)
  have p: "segment_path ''out'' 0 = Path ''out'' ''chunk_0000.parquet''"
    "segment_path ''out'' (Suc 0) = Path ''out'' ''chunk_0001.parquet''"
    by (simp_all add: segment_path_def chunk_file_name_def format_04d_def dec_small
          digit_char_def char_of_eq_iff) (simp_all add: numeral_eq_Suc)
  have u: "[0..<length ?cs] = [0, Suc 0]" by (simp add: upt_rec)
  from run_complete [OF h1 h2 two_batch_iterator two_batch_batches h5, of Map.empty]
  show ?thesis
    unfolding u by (simp add: p less_Suc_eq all_conj_distrib)
qed

section \<open>Segment indices and names\<close>

text \<open>
  C2, as the code has it. Every call of \<open>split_and_convert\<close> either raises at \<open>mkdir\<close>
  or returns, completed or stopped by an error, a list of \<open>K\<close> paths that are the
  segments \<open>0, 1, ..., K-1\<close> in this order, without gap or duplicate; the name of
  segment \<open>i\<close> is \<open>chunk_\<close>, the decimal digits of \<open>i\<close> padded with zeros to at least
  four characters, and \<open>.parquet\<close>; and the names of the segments below 10000 sort
  lexicographically in the order of their production.
\<close>

theorem segment_names_contiguous:
  "case returned (split_and_convert env self input_csv output_dir size_mb d) of
     Inl e \<Rightarrow> mkdir env output_dir = Some e
   | Inr files \<Rightarrow>
       files = map (segment_path output_dir) [0..<length files] \<and>
       distinct files \<and>
       (\<forall>i<length files.
          name (files ! i) = ''chunk_'' @ format_04d i @ ''.parquet'' \<and>
          digits_value (format_04d i) = i \<and> 4 \<le> length (format_04d i)) \<and>
       (\<forall>i j. i < j \<and> j < length files \<and> j < 10000
          \<longrightarrow> name (files ! i) < name (files ! j))"
proof (cases "mkdir env output_dir")
  case (Some e)
  with run_raises [OF Some, of self input_csv size_mb d] show ?thesis by simp
next
  case None
  from run_shape [OF this, of self input_csv size_mb d] obtain m where
    m: "returned (split_and_convert env self input_csv output_dir size_mb d) =
          Inr (map (segment_path output_dir) [0..<m])" by blast
  have "distinct (map (segment_path output_dir) [0..<m])"
    by (simp add: distinct_map inj_on_def segment_path_inj)
  moreover have "name (segment_path output_dir i) = ''chunk_'' @ format_04d i @ ''.parquet''"
    for i by (simp add: segment_path_def chunk_file_name_def)
  moreover have "name (segment_path output_dir i) < name (segment_path output_dir j)"
    if "i < j" "j < 10000" for i j
    using chunk_file_name_mono [OF that] by (simp add: segment_path_def)
  ultimately show ?thesis
    unfolding m by (simp add: digits_value_format length_format_04d)
qed

theorem segment_names_contiguous_witness:
  "returned (split_and_convert (demo_env two_batch_file (\<lambda>p. WriteOk)) (init (Fin 250))
      ''in.csv'' ''out'' (Some (Fin (1 / 1024))) Map.empty) =
     Inr [Path ''out'' ''chunk_0000.parquet'', Path ''out'' ''chunk_0001.parquet''] \<and>
   [Path ''out'' ''chunk_0000.parquet'', Path ''out'' ''chunk_0001.parquet''] =
     map (segment_path ''out'') [0..<2] \<and>
   ''chunk_0000.parquet'' < ''chunk_0001.parquet''"
proof -
  let ?run = "split_and_convert (demo_env two_batch_file (\<lambda>p. WriteOk)) (init (Fin 250))
      ''in.csv'' ''out'' (Some (Fin (1 / 1024))) Map.empty"
  let ?F = "[Path ''out'' ''chunk_0000.parquet'', Path ''out'' ''chunk_0001.parquet'']"
  have r: "returned ?run = Inr ?F"
    using two_batch_ok_run by blast
  have "case returned ?run of
     Inl e \<Rightarrow> mkdir (demo_env two_batch_file (\<lambda>p. WriteOk)) ''out'' = Some e
   | Inr files \<Rightarrow>
       files = map (segment_path ''out'') [0..<length files] \<and>
       distinct files \<and>
       (\<forall>i<length files.
          name (files ! i) = ''chunk_'' @ format_04d i @ ''.parquet'' \<and>
          digits_value (format_04d i) = i \<and> 4 \<le> length (format_04d i)) \<and>
       (\<forall>i j. i < j \<and> j < length files \<and> j < 10000
          \<longrightarrow> name (files ! i) < name (files ! j))"
    by (rule segment_names_contiguous)
  then have AB: "?F = map (segment_path ''out'') [0..<length ?F] \<and>
       distinct ?F \<and>
       (\<forall>i<length ?F.
          name (?F ! i) = ''chunk_'' @ format_04d i @ ''.parquet'' \<and>
          digits_value (format_04d i) = i \<and> 4 \<le> length (format_04d i)) \<and>
       (\<forall>i j. i < j \<and> j < length ?F \<and> j < 10000
          \<longrightarrow> name (?F ! i) < name (?F ! j))"
    unfolding r sum.case .
  then have A: "?F = map (segment_path ''out'') [0..<length ?F]"
    and B: "\<forall>i j. i < j \<and> j < length ?F \<and> j < 10000
          \<longrightarrow> name (?F ! i) < name (?F ! j)"
    by blast+
  from B [rule_format, of 0 1] have "''chunk_0000.parquet'' < ''chunk_0001.parquet''"
    by simp
  moreover from A have "?F = map (segment_path ''out'') [0..<2]"
    by (simp only: list.size) (simp add: numeral_2_eq_2)
  ultimately show ?thesis using r by blast
qed

text \<open>A file of 10000001 records: 10001 batches of at most 1000 records.\<close>

definition long_file :: csv_file where
  "long_file = \<lparr>header = [''id''], body = replicate (10000 * 1000 + 1) (Record [''7''])\<rparr>"

lemma batches_replicate:
  "0 < n \<Longrightarrow> 0 < m \<Longrightarrow> m \<le> n \<Longrightarrow>
   batches \<lparr>rd_columns = h, pending = replicate (k * n + m) (Record r), first_chunk = fc,
            chunksize = n, on_bad_lines = pol\<rparr> =
     (replicate k \<lparr>columns = h, rows = replicate n r\<rparr> @
        [\<lparr>columns = h, rows = replicate m r\<rparr>], None)"
proof (induction k arbitrary: fc)
  case 0
  have e: "batches \<lparr>rd_columns = h, pending = [], first_chunk = False,
            chunksize = n, on_bad_lines = pol\<rparr> = ([], None)"
    by (subst batches.simps) (simp add: next_chunk_def)
  from 0 show ?case
    by (subst batches.simps) (simp add: next_chunk_def next_rows_replicate_short e)
next
  case (Suc k)
  have "replicate (Suc k * n + m) (Record r) =
          replicate n (Record r) @ replicate (k * n + m) (Record r)"
    by (simp add: replicate_add [symmetric] add.assoc)
  with Suc show ?case
    by (subst batches.simps)
       (simp add: next_chunk_def next_rows_replicate_exact del: replicate_Suc, simp)
qed

lemma long_sample:
  "read_csv_nrows (demo_env long_file w) p 1000 OnSkip =
     Inr \<lparr>columns = [''id''], rows = replicate 1000 [''7'']\<rparr>"
proof -
  have "replicate (10000 * 1000 + 1) (Record [''7'']) =
          replicate 1000 (Record [''7'']) @ replicate (9999 * 1000 + 1) (Record [''7''])"
    by (simp add: replicate_add [symmetric])
  then have "next_rows OnSkip 1000 (body long_file) =
          Inr (replicate 1000 [''7''], replicate (9999 * 1000 + 1) (Record [''7'']))"
    unfolding long_file_def by (simp only: csv_file.simps next_rows_replicate_exact)
  then show ?thesis
    by (simp add: read_csv_nrows_def demo_env_def) (simp add: long_file_def)
qed

lemma long_iterator:
  "chunk_iterator (demo_env long_file w) (set_chunk_size (init (Fin 250)) (Some (Fin (1 / 1024))))
     ''in.csv'' =
   Inr \<lparr>rd_columns = [''id''], pending = replicate (10000 * 1000 + 1) (Record [''7'']),
        first_chunk = True, chunksize = 1000, on_bad_lines = OnSkip\<rparr>"
proof -
  let ?E = "demo_env long_file w"
  let ?self = "set_chunk_size (init (Fin 250)) (Some (Fin (1 / 1024)))"
  have "estimate_try ?E ?self ''in.csv'' (Fin (1 / 1024)) = Inr 1000"
    by (simp add: estimate_try_def long_sample)
       (simp add: avg_row_size_def np_true_divide_def target_chunk_size_def demo_env_def
          set_chunk_size_def init_def trunc_def floor_eq_iff)
  then have "snd (estimate_rows_per_chunk ?E ?self ''in.csv'' (chunk_size_mb ?self)) = 1000"
    by (simp add: estimate_rows_per_chunk_def set_chunk_size_def)
  then show ?thesis
    by (simp only: chunk_iterator_def read_csv_chunks_def)
       (simp add: demo_env_def long_file_def del: replicate_Suc)
qed

lemma long_run:
  "returned (split_and_convert (demo_env long_file (\<lambda>p. WriteOk)) (init (Fin 250))
      ''in.csv'' ''out'' (Some (Fin (1 / 1024))) Map.empty) =
     Inr (map (segment_path ''out'') [0..<10001])"
proof -
  let ?E = "demo_env long_file (\<lambda>p. WriteOk)"
  let ?cs = "replicate 10000 \<lparr>columns = [''id''], rows = replicate 1000 [''7'']\<rparr> @
        [\<lparr>columns = [''id''], rows = replicate 1 [''7'']\<rparr>]"
  have h1: "mkdir ?E ''out'' = None" by (simp add: demo_env_def)
  have h2: "bytes_per_mb (init (Fin 250)) \<noteq> 0" by (simp add: init_def)
  have b: "batches \<lparr>rd_columns = [''id''], pending = replicate (10000 * 1000 + 1) (Record [''7'']),
        first_chunk = True, chunksize = 1000, on_bad_lines = OnSkip\<rparr> = (?cs, None)"
    by (rule batches_replicate) simp_all
  have h5: "\<forall>i<length ?cs. write_outcome ?E (segment_path ''out'' i) = WriteOk"
    by (simp add: demo_env_def)
  have l: "length ?cs = 10001" by simp
  from run_complete [OF h1 h2 long_iterator b h5, of Map.empty]
  show ?thesis unfolding l by blast
qed

text \<open>
  C2 as stated fails from the 10001st segment on: the run over the file of 10000001
  records returns 10001 segments, the index 10000 takes five digits, and its name sorts
  before the name of the segment 9999 produced before it.
\<close>

theorem segment_names_sort_counterexample:
  "returned (split_and_convert (demo_env long_file (\<lambda>p. WriteOk)) (init (Fin 250))
      ''in.csv'' ''out'' (Some (Fin (1 / 1024))) Map.empty) =
     Inr (map (segment_path ''out'') [0..<10001]) \<and>
   name (map (segment_path ''out'') [0..<10001] ! 9999) = ''chunk_9999.parquet'' \<and>
   name (map (segment_path ''out'') [0..<10001] ! 10000) = ''chunk_10000.parquet'' \<and>
   ''chunk_10000.parquet'' < ''chunk_9999.parquet''"
proof -
  have "map (segment_path ''out'') [0..<10001] ! 9999 = segment_path ''out'' 9999"
    "map (segment_path ''out'') [0..<10001] ! 10000 = segment_path ''out'' 10000"
    by (simp_all del: upt_Suc)
  with long_run show ?thesis
    by (simp add: segment_path_def chunk_file_name_examples less_char_def del: upt_Suc)
qed


lemma out_paths:
  "segment_path ''out'' 0 = Path ''out'' ''chunk_0000.parquet''"
  "segment_path ''out'' (Suc 0) = Path ''out'' ''chunk_0001.parquet''"
  "segment_path ''out'' 1 = Path ''out'' ''chunk_0001.parquet''"
  by (simp_all add: segment_path_def chunk_file_name_def format_04d_def dec_small
        digit_char_def char_of_eq_iff) (simp_all add: numeral_eq_Suc)


section \<open>Round trip\<close>



section \<open>Complete and truncated files\<close>

text \<open>
  C9, as the code has it. Every path in the list returned holds a complete Parquet file on
  the disk the run leaves: a path is appended only after \<open>to_parquet\<close> has returned. The
  write itself goes to the final path, with no temporary file and no rename: when the write
  of batch \<open>N\<close> fails part-way, a truncated file is left at the final path of segment
  \<open>N\<close>, which is not in the list returned.
\<close>

theorem returned_segments_complete:
  "(case returned (split_and_convert env self input_csv output_dir size_mb d) of
      Inl e \<Rightarrow> disk_after (split_and_convert env self input_csv output_dir size_mb d) = d
    | Inr files \<Rightarrow>
        \<forall>i<length files. \<exists>cols rs.
          disk_after (split_and_convert env self input_csv output_dir size_mb d) (files ! i) =
            Some (Parquet cols rs)) \<and>
   (mkdir env output_dir = None \<and> bytes_per_mb self \<noteq> 0 \<and>
    chunk_iterator env (set_chunk_size self size_mb) input_csv = Inr rd \<and>
    batches rd = (cs, r) \<and> N < length cs \<and>
    (\<forall>i<N. write_outcome env (segment_path output_dir i) = WriteOk) \<and>
    write_outcome env (segment_path output_dir N) = WriteFailsPartial e
    \<longrightarrow> returned (split_and_convert env self input_csv output_dir size_mb d) =
          Inr (map (segment_path output_dir) [0..<N]) \<and>
        segment_path output_dir N \<notin> set (map (segment_path output_dir) [0..<N]) \<and>
        disk_after (split_and_convert env self input_csv output_dir size_mb d)
          (segment_path output_dir N) = Some Truncated)"
proof (rule conjI)
  show "case returned (split_and_convert env self input_csv output_dir size_mb d) of
      Inl e \<Rightarrow> disk_after (split_and_convert env self input_csv output_dir size_mb d) = d
    | Inr files \<Rightarrow>
        \<forall>i<length files. \<exists>cols rs.
          disk_after (split_and_convert env self input_csv output_dir size_mb d) (files ! i) =
            Some (Parquet cols rs)"
  proof (cases "mkdir env output_dir")
    case (Some e)
    from run_raises [OF this, of self input_csv size_mb d] show ?thesis by simp
  next
    case None
    from run_shape [OF this, of self input_csv size_mb d] show ?thesis by auto
  qed
next
  show "mkdir env output_dir = None \<and> bytes_per_mb self \<noteq> 0 \<and>
    chunk_iterator env (set_chunk_size self size_mb) input_csv = Inr rd \<and>
    batches rd = (cs, r) \<and> N < length cs \<and>
    (\<forall>i<N. write_outcome env (segment_path output_dir i) = WriteOk) \<and>
    write_outcome env (segment_path output_dir N) = WriteFailsPartial e
    \<longrightarrow> returned (split_and_convert env self input_csv output_dir size_mb d) =
          Inr (map (segment_path output_dir) [0..<N]) \<and>
        segment_path output_dir N \<notin> set (map (segment_path output_dir) [0..<N]) \<and>
        disk_after (split_and_convert env self input_csv output_dir size_mb d)
          (segment_path output_dir N) = Some Truncated"
  proof (rule impI)
  assume a: "mkdir env output_dir = None \<and> bytes_per_mb self \<noteq> 0 \<and>
    chunk_iterator env (set_chunk_size self size_mb) input_csv = Inr rd \<and>
    batches rd = (cs, r) \<and> N < length cs \<and>
    (\<forall>i<N. write_outcome env (segment_path output_dir i) = WriteOk) \<and>
    write_outcome env (segment_path output_dir N) = WriteFailsPartial e"
  then have 5: "N \<le> length cs"
    and 7: "(N < length cs \<and>
            write_error (write_outcome env (segment_path output_dir N)) = Some e) \<or>
           (N = length cs \<and> r = Some e)"
    by simp_all
  from a have "mkdir env output_dir = None" "bytes_per_mb self \<noteq> 0"
    "chunk_iterator env (set_chunk_size self size_mb) input_csv = Inr rd"
    "batches rd = (cs, r)"
    "\<forall>i<N. write_outcome env (segment_path output_dir i) = WriteOk" by simp_all
  from run_first_failure [OF this(1-4) 5 this(5) 7, of d] a
  show "returned (split_and_convert env self input_csv output_dir size_mb d) =
          Inr (map (segment_path output_dir) [0..<N]) \<and>
        segment_path output_dir N \<notin> set (map (segment_path output_dir) [0..<N]) \<and>
        disk_after (split_and_convert env self input_csv output_dir size_mb d)
          (segment_path output_dir N) = Some Truncated"
    by (auto simp: segment_path_inj)
  qed
qed

lemma two_batch_failed_run:
  "returned (split_and_convert (demo_env two_batch_file fail_second) (init (Fin 250))
      ''in.csv'' ''out'' (Some (Fin (1 / 1024))) Map.empty) =
     Inr [Path ''out'' ''chunk_0000.parquet''] \<and>
   disk_after (split_and_convert (demo_env two_batch_file fail_second) (init (Fin 250))
      ''in.csv'' ''out'' (Some (Fin (1 / 1024))) Map.empty)
     (Path ''out'' ''chunk_0000.parquet'') = Some (Parquet [''id''] (replicate 1000 [''7''])) \<and>
   disk_after (split_and_convert (demo_env two_batch_file fail_second) (init (Fin 250))
      ''in.csv'' ''out'' (Some (Fin (1 / 1024))) Map.empty)
     (Path ''out'' ''chunk_0001.parquet'') = Some Truncated"
proof -
  let ?E = "demo_env two_batch_file fail_second"
  let ?cs = "[\<lparr>columns = [''id''], rows = replicate 1000 [''7'']\<rparr>,
              \<lparr>columns = [''id''], rows = replicate 500 [''8'']\<rparr>]"
  have h1: "mkdir ?E ''out'' = None" by (simp add: demo_env_def)
  have h2: "bytes_per_mb (init (Fin 250)) \<noteq> 0" by (simp add: init_def)
  have h5: "(1::nat) \<le> length ?cs" by simp
  have h6: "\<forall>i<1. write_outcome ?E (segment_path ''out'' i) = WriteOk"
    by (simp add: demo_env_def fail_second_def segment_path_inj)
  have h7: "(1 < length ?cs \<and>
     write_error (write_outcome ?E (segment_path ''out'' 1)) = Some OSError) \<or>
     (1 = length ?cs \<and> None = Some OSError)"
    by (simp add: demo_env_def fail_second_def)
  have w: "write_outcome ?E (segment_path ''out'' 1) = WriteFailsPartial OSError"
    by (simp add: demo_env_def fail_second_def)
  note p = out_paths
  from run_first_failure [OF h1 h2 two_batch_iterator two_batch_batches h5 h6 h7, of Map.empty] w
  show ?thesis by (simp add: p)
qed

theorem returned_segments_complete_witness:
  "returned (split_and_convert (demo_env two_batch_file fail_second) (init (Fin 250))
      ''in.csv'' ''out'' (Some (Fin (1 / 1024))) Map.empty) =
     Inr (map (segment_path ''out'') [0..<1]) \<and>
   segment_path ''out'' 1 \<notin> set (map (segment_path ''out'') [0..<1]) \<and>
   disk_after (split_and_convert (demo_env two_batch_file fail_second) (init (Fin 250))
      ''in.csv'' ''out'' (Some (Fin (1 / 1024))) Map.empty)
     (segment_path ''out'' 1) = Some Truncated \<and>
   disk_after (split_and_convert (demo_env two_batch_file fail_second) (init (Fin 250))
      ''in.csv'' ''out'' (Some (Fin (1 / 1024))) Map.empty)
     (map (segment_path ''out'') [0..<1] ! 0) = Some (Parquet [''id''] (replicate 1000 [''7'']))"
proof -
  let ?E = "demo_env two_batch_file fail_second"
  let ?out = "split_and_convert ?E (init (Fin 250)) ''in.csv'' ''out''
                (Some (Fin (1 / 1024))) Map.empty"
  let ?cs = "[\<lparr>columns = [''id''], rows = replicate 1000 [''7'']\<rparr>,
              \<lparr>columns = [''id''], rows = replicate 500 [''8'']\<rparr>]"
  have h: "mkdir ?E ''out'' = None \<and> bytes_per_mb (init (Fin 250)) \<noteq> 0 \<and>
    chunk_iterator ?E (set_chunk_size (init (Fin 250)) (Some (Fin (1 / 1024)))) ''in.csv'' =
      Inr \<lparr>rd_columns = [''id''],
        pending = replicate 1000 (Record [''7'']) @ TooManyFields # replicate 500 (Record [''8'']),
        first_chunk = True, chunksize = 1000, on_bad_lines = OnSkip\<rparr> \<and>
    batches \<lparr>rd_columns = [''id''],
        pending = replicate 1000 (Record [''7'']) @ TooManyFields # replicate 500 (Record [''8'']),
        first_chunk = True, chunksize = 1000, on_bad_lines = OnSkip\<rparr> = (?cs, None) \<and>
    1 < length ?cs \<and>
    (\<forall>i<1. write_outcome ?E (segment_path ''out'' i) = WriteOk) \<and>
    write_outcome ?E (segment_path ''out'' 1) = WriteFailsPartial OSError"
    using two_batch_iterator [of fail_second] two_batch_batches
    by (simp add: demo_env_def init_def fail_second_def segment_path_inj)
  note p = out_paths
  from returned_segments_complete [where env = ?E and self = "init (Fin 250)"
         and input_csv = "''in.csv''" and output_dir = "''out''"
         and size_mb = "Some (Fin (1 / 1024))" and d = Map.empty and N = 1 and e = OSError
         and cs = ?cs and r = None, THEN conjunct2, rule_format, OF h]
       two_batch_failed_run
  show ?thesis by (simp add: p)
qed

text \<open>
  C9 as stated fails: a write that fails part-way is visible at the final path
  \<open>chunk_0001.parquet\<close>, as a file that cannot be read.
\<close>

theorem partial_file_counterexample:
  "write_outcome (demo_env two_batch_file fail_second) (Path ''out'' ''chunk_0001.parquet'') =
     WriteFailsPartial OSError \<and>
   disk_after (split_and_convert (demo_env two_batch_file fail_second) (init (Fin 250))
      ''in.csv'' ''out'' (Some (Fin (1 / 1024))) Map.empty)
     (Path ''out'' ''chunk_0001.parquet'') = Some Truncated \<and>
   read_parquet
     (disk_after (split_and_convert (demo_env two_batch_file fail_second) (init (Fin 250))
        ''in.csv'' ''out'' (Some (Fin (1 / 1024))) Map.empty))
     (Path ''out'' ''chunk_0001.parquet'') = Inl OSError"
proof -
  note p = out_paths
  have "write_outcome (demo_env two_batch_file fail_second)
          (Path ''out'' ''chunk_0001.parquet'') = WriteFailsPartial OSError"
    by (simp add: demo_env_def fail_second_def p [symmetric])
  with two_batch_failed_run show ?thesis
    by (simp add: read_parquet_def)
qed

section \<open>Bad lines in the counting pass\<close>

text \<open>A file of 100 records with 5 bad lines between them, one after every 20 records.\<close>

definition interleaved_file :: csv_file where
  "interleaved_file =
     \<lparr>header = [''id''],
      body = concat (replicate 5 (replicate 20 (Record [''7'']) @ [TooManyFields]))\<rparr>"

lemma next_rows_error_rest:
  "next_rows OnError n ls = Inr (rs, rest) \<Longrightarrow> TooManyFields \<in> set ls \<Longrightarrow>
     TooManyFields \<in> set rest \<and> (0 < n \<longrightarrow> rs \<noteq> [])"
proof (induction "OnError" n ls arbitrary: rs rest rule: next_rows.induct)
  case (3 n r ls)
  then show ?case by (auto split: sum.splits prod.splits)
qed auto

lemma next_rows_error_kind:
  "next_rows OnError n ls = Inl e \<Longrightarrow> BadBytes \<notin> set ls \<Longrightarrow> e = ParserError"
proof (induction "OnError" n ls arbitrary: e rule: next_rows.induct)
  case (3 n r ls)
  then show ?case by (auto split: sum.splits prod.splits)
qed auto

lemma next_rows_rest_subset:
  "next_rows pol n ls = Inr (rs, rest) \<Longrightarrow> set rest \<subseteq> set ls"
proof (induction pol n ls arbitrary: rs rest rule: next_rows.induct)
  case (3 pol n r ls)
  then show ?case by (fastforce split: sum.splits prod.splits)
qed auto

lemma sum_chunk_lengths_bad_line:
  "on_bad_lines rd = OnError \<Longrightarrow> 0 < chunksize rd \<Longrightarrow>
   TooManyFields \<in> set (pending rd) \<Longrightarrow> BadBytes \<notin> set (pending rd) \<Longrightarrow>
     sum_chunk_lengths rd acc = Inl ParserError"
proof (induction rd acc rule: sum_chunk_lengths.induct)
  case (1 rd acc)
  show ?case
  proof (cases "next_rows OnError (chunksize rd) (pending rd)")
    case (Inl e)
    with next_rows_error_kind [OF Inl "1.prems"(4)] "1.prems"(1) show ?thesis
      by (subst sum_chunk_lengths.simps) (simp add: next_chunk_def)
  next
    case (Inr x)
    obtain rs rest where x: "x = (rs, rest)" by (cases x)
    from next_rows_error_rest [OF Inr [unfolded x] "1.prems"(3)] "1.prems"(2)
    have rest: "TooManyFields \<in> set rest" "rs \<noteq> []" by simp_all
    from next_rows_rest_subset [OF Inr [unfolded x]] "1.prems"(4)
    have nb: "BadBytes \<notin> set rest" by auto
    let ?c = "\<lparr>columns = rd_columns rd, rows = rs\<rparr>"
    let ?rd' = "rd\<lparr>pending := rest, first_chunk := False\<rparr>"
    from Inr x rest(2) "1.prems"(1)
    have nc: "next_chunk rd = Inr (Some (?c, ?rd'))"
      by (simp add: next_chunk_def)
    have "sum_chunk_lengths ?rd' (acc + length (rows ?c)) = Inl ParserError"
      using "1.prems"(1,2) rest(1) nb
      by (intro "1.IH" [OF nc refl refl]) simp_all
    with nc show ?thesis
      by (subst sum_chunk_lengths.simps) simp
  qed
qed

lemma get_total_rows_bad_line:
  assumes "open_csv env csv_path = Inr f"
      and "TooManyFields \<in> set (body f)" "BadBytes \<notin> set (body f)"
  shows "get_total_rows env csv_path = ([WarnCount ParserError, Proceeding], None)"
proof -
  have "sum_chunk_lengths \<lparr>rd_columns = header f, pending = body f, first_chunk = True,
               chunksize = 10000, on_bad_lines = OnError\<rparr> 0 = Inl ParserError"
    using assms(2,3) by (intro sum_chunk_lengths_bad_line) simp_all
  with assms(1) show ?thesis
    by (simp add: get_total_rows_def count_try_def read_csv_chunks_def)
qed

text \<open>
  C5 fails on the code. \<open>get_total_rows\<close> opens its reader without
  \<open>on_bad_lines='skip'\<close>, so a bad line raises in the counting pass: for the file of 100
  records and 5 bad lines the count is not 100 but \<open>None\<close>, with the warning printed. The
  sampling pass, which passes \<open>on_bad_lines='skip'\<close> as the conversion pass does, reads
  the 100 records of the same file.
\<close>

theorem counting_stops_at_bad_line:
  "length (records (body interleaved_file)) = 100 \<and>
   length (filter (\<lambda>l. l = TooManyFields) (body interleaved_file)) = 5 \<and>
   get_total_rows (demo_env interleaved_file (\<lambda>p. WriteOk)) ''in.csv'' =
     ([WarnCount ParserError, Proceeding], None) \<and>
   read_csv_nrows (demo_env interleaved_file (\<lambda>p. WriteOk)) ''in.csv'' 1000 OnSkip =
     Inr \<lparr>columns = [''id''], rows = replicate 100 [''7'']\<rparr>"
proof -
  have rec_app: "records (xs @ ys) = records xs @ records ys" for xs ys
    by (induction xs rule: records.induct) simp_all
  have rec_rep: "records (replicate k (Record r)) = replicate k r" for k r
    by (induction k) simp_all
  have b: "body interleaved_file =
      replicate 20 (Record [''7'']) @ TooManyFields #
      replicate 20 (Record [''7'']) @ TooManyFields #
      replicate 20 (Record [''7'']) @ TooManyFields #
      replicate 20 (Record [''7'']) @ TooManyFields #
      replicate 20 (Record [''7'']) @ [TooManyFields]"
    by (simp add: interleaved_file_def numeral_eq_Suc)
  have r: "records (body interleaved_file) = replicate 100 [''7'']"
    unfolding b by (simp add: rec_app rec_rep replicate_add [symmetric])
  have c: "length (filter (\<lambda>l. l = TooManyFields) (body interleaved_file)) = 5"
    unfolding b by simp
  have o: "open_csv (demo_env interleaved_file (\<lambda>p. WriteOk)) ''in.csv'' = Inr interleaved_file"
    by (simp add: demo_env_def)
  have g: "get_total_rows (demo_env interleaved_file (\<lambda>p. WriteOk)) ''in.csv'' =
     ([WarnCount ParserError, Proceeding], None)"
    by (rule get_total_rows_bad_line [OF o]) (simp_all add: b)
  have skip: "next_rows OnSkip n (replicate k (Record r) @ TooManyFields # ls) =
        (case next_rows OnSkip (n - k) ls of
           Inl e \<Rightarrow> Inl e
         | Inr (rs, rest) \<Rightarrow> Inr (replicate k r @ rs, rest))"
    if "k < n" for n k r ls
    using that
  proof (induction k arbitrary: n)
    case 0
    then show ?case by (cases n) (auto split: sum.splits)
  next
    case (Suc k)
    then obtain m where "n = Suc m" "k < m" by (cases n) auto
    with Suc.IH [of m] show ?case by (auto split: sum.splits)
  qed
  have "next_rows OnSkip 1000 (body interleaved_file) = Inr (replicate 100 [''7''], [])"
    unfolding b
    by (simp add: skip replicate_add [symmetric])
  then have s: "read_csv_nrows (demo_env interleaved_file (\<lambda>p. WriteOk)) ''in.csv'' 1000 OnSkip =
     Inr \<lparr>columns = [''id''], rows = replicate 100 [''7'']\<rparr>"
    by (simp add: read_csv_nrows_def o) (simp add: interleaved_file_def)
  from r c g s show ?thesis by simp
qed

section \<open>Requests that the specification calls invalid\<close>

lemma estimate_success:
  assumes "read_csv_nrows env csv_path 1000 OnSkip = Inr sample_df"
      and "float_div (float_round env) (target_chunk_size env self size_mb)
             (avg_row_size env sample_df) = Fin q"
  shows "estimate_rows_per_chunk env self csv_path size_mb = ([], max 1000 \<lfloor>q\<rfloor>)"
  using assms
  by (simp add: estimate_rows_per_chunk_def estimate_try_def max_trunc_floor)

lemma nonpositive_quotient:
  assumes "faithful_rounding rnd"
      and "t \<le> 0"
      and "float_le (Fin 0) a \<or> a = PInf \<or> a = NaN"
      and "float_div rnd (Fin t) a = Fin q"
    shows "q \<le> 0"
proof (cases a)
  case (Fin y)
  with assms(3) have y: "0 \<le> y" by simp
  show ?thesis
  proof (cases "y = 0")
    case True
    with Fin assms(4) show ?thesis by (auto split: if_splits)
  next
    case False
    with y assms(2) have "t / y \<le> 0" by (simp add: divide_nonpos_pos)
    with assms(1) have "float_le (rnd (t / y)) (rnd 0)"
      unfolding faithful_rounding_def by blast
    moreover from assms(1) have "rnd 0 = Fin 0" by (simp add: faithful_rounding_def)
    ultimately show ?thesis using Fin False assms(4) by simp
  qed
qed (use assms in auto)

lemma two_batch_estimate_small:
  assumes "bytes_per_mb self = 1024 * 1024" "s \<le> 1 / 1024"
  shows "estimate_rows_per_chunk (demo_env two_batch_file w) self p (Fin s) = ([], 1000)"
proof -
  let ?E = "demo_env two_batch_file w"
  let ?df = "\<lparr>columns = [''id''], rows = replicate 1000 [''7'']\<rparr>"
  have q: "float_div (float_round ?E) (target_chunk_size ?E self (Fin s)) (avg_row_size ?E ?df) =
           Fin (s * 1048576 / (120132 / 1000))"
    using assms(1)
    by (simp add: avg_row_size_def np_true_divide_def target_chunk_size_def demo_env_def)
  have "s * 1048576 / (120132 / 1000) \<le> 1024 / (120132 / 1000)"
    using assms(2) by (simp add: divide_le_cancel)
  also have "\<dots> < 9" by simp
  finally have "\<lfloor>s * 1048576 / (120132 / 1000)\<rfloor> \<le> 8"
    by (simp add: floor_le_iff)
  with estimate_success [OF two_batch_sample q] show ?thesis by simp
qed

lemma two_batch_iterator_small:
  assumes "s \<le> 1 / 1024"
  shows "chunk_iterator (demo_env two_batch_file w) (set_chunk_size (init (Fin 250)) (Some (Fin s)))
     ''in.csv'' =
   Inr \<lparr>rd_columns = [''id''],
        pending = replicate 1000 (Record [''7'']) @ TooManyFields # replicate 500 (Record [''8'']),
        first_chunk = True, chunksize = 1000, on_bad_lines = OnSkip\<rparr>"
proof -
  have "bytes_per_mb (set_chunk_size (init (Fin 250)) (Some (Fin s))) = 1024 * 1024"
    by (simp add: init_def)
  from two_batch_estimate_small [OF this assms]
  have "snd (estimate_rows_per_chunk (demo_env two_batch_file w)
              (set_chunk_size (init (Fin 250)) (Some (Fin s))) ''in.csv''
              (chunk_size_mb (set_chunk_size (init (Fin 250)) (Some (Fin s))))) = 1000"
    by (simp add: set_chunk_size_def)
  then show ?thesis
    by (simp add: chunk_iterator_def read_csv_chunks_def)
       (simp add: demo_env_def two_batch_file_def)
qed

lemma two_batch_small_run:
  assumes "s \<le> 1 / 1024"
  shows "returned (split_and_convert (demo_env two_batch_file (\<lambda>p. WriteOk)) (init (Fin 250))
      ''in.csv'' ''out'' (Some (Fin s)) Map.empty) =
     Inr [Path ''out'' ''chunk_0000.parquet'', Path ''out'' ''chunk_0001.parquet''] \<and>
   disk_after (split_and_convert (demo_env two_batch_file (\<lambda>p. WriteOk)) (init (Fin 250))
      ''in.csv'' ''out'' (Some (Fin s)) Map.empty)
     (Path ''out'' ''chunk_0000.parquet'') = Some (Parquet [''id''] (replicate 1000 [''7'']))"
proof -
  let ?E = "demo_env two_batch_file (\<lambda>p. WriteOk)"
  let ?cs = "[\<lparr>columns = [''id''], rows = replicate 1000 [''7'']\<rparr>,
              \<lparr>columns = [''id''], rows = replicate 500 [''8'']\<rparr>]"
  have h1: "mkdir ?E ''out'' = None" by (simp add: demo_env_def)
  have h2: "bytes_per_mb (init (Fin 250)) \<noteq> 0" by (simp add: init_def)
  have h5: "\<forall>i<length ?cs. write_outcome ?E (segment_path ''out'' i) = WriteOk"
    by (simp add: demo_env_def)
  have u: "[0..<length ?cs] = [0, Suc 0]" by (simp add: upt_rec)
  from run_complete [OF h1 h2 two_batch_iterator_small [OF assms] two_batch_batches h5,
         of Map.empty]
  show ?thesis
    unfolding u by (simp add: out_paths less_Suc_eq all_conj_distrib)
qed

text \<open>
  C8, as the code has it. A directory that cannot be created raises from \<open>mkdir\<close>, before
  anything is read, written or printed. An input path that cannot be opened is reported by
  the handler of the conversion pass, after the directory has been created: the list
  returned is empty and the disk is unchanged. The target size is never checked: once the
  directory exists the call returns a list whatever the size, and for a target of zero or
  fewer bytes the estimator, on its success path, returns its floor of 1000 records per
  segment.
\<close>

theorem invalid_request_outcomes:
  "(mkdir env output_dir = Some e \<longrightarrow>
      returned (split_and_convert env self input_csv output_dir size_mb d) = Inl e \<and>
      disk_after (split_and_convert env self input_csv output_dir size_mb d) = d \<and>
      printed (split_and_convert env self input_csv output_dir size_mb d) = []) \<and>
   (mkdir env output_dir = None \<and> open_csv env input_csv = Inl e \<longrightarrow>
      returned (split_and_convert env self input_csv output_dir size_mb d) = Inr [] \<and>
      disk_after (split_and_convert env self input_csv output_dir size_mb d) = d \<and>
      ErrorDuringConversion e
        \<in> set (printed (split_and_convert env self input_csv output_dir size_mb d))) \<and>
   (mkdir env output_dir = None \<longrightarrow>
      (\<exists>files. returned (split_and_convert env self input_csv output_dir size_mb d) =
                 Inr files)) \<and>
   (faithful_rounding (float_round env) \<and>
    read_csv_nrows env input_csv 1000 OnSkip = Inr sample_df \<and>
    target_chunk_size env self s = Fin t \<and> t \<le> 0 \<and>
    float_div (float_round env) (target_chunk_size env self s)
      (avg_row_size env sample_df) = Fin q \<longrightarrow>
      estimate_rows_per_chunk env self input_csv s = ([], 1000))"
proof (intro conjI)
  show "mkdir env output_dir = Some e \<longrightarrow>
      returned (split_and_convert env self input_csv output_dir size_mb d) = Inl e \<and>
      disk_after (split_and_convert env self input_csv output_dir size_mb d) = d \<and>
      printed (split_and_convert env self input_csv output_dir size_mb d) = []"
    by (simp add: run_raises)
next
  show "mkdir env output_dir = None \<and> open_csv env input_csv = Inl e \<longrightarrow>
      returned (split_and_convert env self input_csv output_dir size_mb d) = Inr [] \<and>
      disk_after (split_and_convert env self input_csv output_dir size_mb d) = d \<and>
      ErrorDuringConversion e
        \<in> set (printed (split_and_convert env self input_csv output_dir size_mb d))"
    using run_unreadable [of env output_dir input_csv e self size_mb d] by blast
next
  show "mkdir env output_dir = None \<longrightarrow>
      (\<exists>files. returned (split_and_convert env self input_csv output_dir size_mb d) =
                 Inr files)"
    using run_shape [of env output_dir self input_csv size_mb d] by blast
next
  show "faithful_rounding (float_round env) \<and>
    read_csv_nrows env input_csv 1000 OnSkip = Inr sample_df \<and>
    target_chunk_size env self s = Fin t \<and> t \<le> 0 \<and>
    float_div (float_round env) (target_chunk_size env self s)
      (avg_row_size env sample_df) = Fin q \<longrightarrow>
      estimate_rows_per_chunk env self input_csv s = ([], 1000)"
  proof
    assume a: "faithful_rounding (float_round env) \<and>
      read_csv_nrows env input_csv 1000 OnSkip = Inr sample_df \<and>
      target_chunk_size env self s = Fin t \<and> t \<le> 0 \<and>
      float_div (float_round env) (target_chunk_size env self s)
        (avg_row_size env sample_df) = Fin q"
    then have f: "faithful_rounding (float_round env)" and t: "t \<le> 0"
      and tt: "target_chunk_size env self s = Fin t"
      and q0: "float_div (float_round env) (target_chunk_size env self s)
                 (avg_row_size env sample_df) = Fin q"
      by blast+
    from q0 have q: "float_div (float_round env) (Fin t) (avg_row_size env sample_df) = Fin q"
      unfolding tt .
    from nonpositive_quotient [OF f t avg_row_size_nonneg [OF f] q] have "q \<le> 0" .
    then have fl: "\<lfloor>q\<rfloor> \<le> 0" by (simp add: floor_le_iff)
    from a have rd: "read_csv_nrows env input_csv 1000 OnSkip = Inr sample_df" by blast
    from estimate_success [OF rd q0]
    have "estimate_rows_per_chunk env self input_csv s = ([], max 1000 \<lfloor>q\<rfloor>)" .
    with fl show "estimate_rows_per_chunk env self input_csv s = ([], 1000)" by simp
  qed
qed

theorem invalid_request_outcomes_witness:
  "returned (split_and_convert
      ((demo_env two_batch_file (\<lambda>p. WriteOk))\<lparr>mkdir := (\<lambda>p. Some PermissionError)\<rparr>)
      (init (Fin 250)) ''in.csv'' ''out'' None Map.empty) = Inl PermissionError \<and>
   printed (split_and_convert
      ((demo_env two_batch_file (\<lambda>p. WriteOk))\<lparr>mkdir := (\<lambda>p. Some PermissionError)\<rparr>)
      (init (Fin 250)) ''in.csv'' ''out'' None Map.empty) = [] \<and>
   returned (split_and_convert
      ((demo_env two_batch_file (\<lambda>p. WriteOk))\<lparr>open_csv := (\<lambda>p. Inl FileNotFoundError)\<rparr>)
      (init (Fin 250)) ''in.csv'' ''out'' None Map.empty) = Inr [] \<and>
   disk_after (split_and_convert
      ((demo_env two_batch_file (\<lambda>p. WriteOk))\<lparr>open_csv := (\<lambda>p. Inl FileNotFoundError)\<rparr>)
      (init (Fin 250)) ''in.csv'' ''out'' None Map.empty) = Map.empty \<and>
   ErrorDuringConversion FileNotFoundError \<in> set (printed (split_and_convert
      ((demo_env two_batch_file (\<lambda>p. WriteOk))\<lparr>open_csv := (\<lambda>p. Inl FileNotFoundError)\<rparr>)
      (init (Fin 250)) ''in.csv'' ''out'' None Map.empty)) \<and>
   estimate_rows_per_chunk (demo_env two_batch_file (\<lambda>p. WriteOk)) (init (Fin 250))
     ''in.csv'' (Fin (- 5)) = ([], 1000)"
proof -
  let ?E = "demo_env two_batch_file (\<lambda>p. WriteOk)"
  let ?E1 = "?E\<lparr>mkdir := (\<lambda>p. Some PermissionError)\<rparr>"
  let ?E2 = "?E\<lparr>open_csv := (\<lambda>p. Inl FileNotFoundError)\<rparr>"
  let ?df = "\<lparr>columns = [''id''], rows = replicate 1000 [''7'']\<rparr>"
  have h1: "mkdir ?E1 ''out'' = Some PermissionError" by (simp add: demo_env_def)
  have h2: "mkdir ?E2 ''out'' = None \<and> open_csv ?E2 ''in.csv'' = Inl FileNotFoundError"
    by (simp add: demo_env_def)
  have t: "target_chunk_size ?E (init (Fin 250)) (Fin (- 5)) = Fin (- 5242880)"
    by (simp add: target_chunk_size_def init_def demo_env_def)
  have q: "float_div (float_round ?E) (target_chunk_size ?E (init (Fin 250)) (Fin (- 5)))
             (avg_row_size ?E ?df) = Fin (- 5242880 / (120132 / 1000))"
    unfolding t by (simp add: avg_row_size_def np_true_divide_def demo_env_def)
  have r: "float_round ?E = Fin" by (simp add: demo_env_def)
  have h4: "faithful_rounding (float_round ?E) \<and>
    read_csv_nrows ?E ''in.csv'' 1000 OnSkip = Inr ?df \<and>
    target_chunk_size ?E (init (Fin 250)) (Fin (- 5)) = Fin (- 5242880) \<and> (- 5242880 :: rat) \<le> 0 \<and>
    float_div (float_round ?E) (target_chunk_size ?E (init (Fin 250)) (Fin (- 5)))
      (avg_row_size ?E ?df) = Fin (- 5242880 / (120132 / 1000))"
    using t q two_batch_sample [of "\<lambda>p. WriteOk" "''in.csv''"]
    by (simp add: r faithful_rounding_Fin)
  note T1 = invalid_request_outcomes [where env = ?E1 and output_dir = "''out''"
      and e = PermissionError and self = "init (Fin 250)" and input_csv = "''in.csv''"
      and size_mb = None and d = Map.empty, THEN conjunct1, THEN mp, OF h1]
  note T2 = invalid_request_outcomes [where env = ?E2 and output_dir = "''out''"
      and e = FileNotFoundError and self = "init (Fin 250)" and input_csv = "''in.csv''"
      and size_mb = None and d = Map.empty, THEN conjunct2, THEN conjunct1, THEN mp, OF h2]
  note T4 = invalid_request_outcomes [where env = ?E and self = "init (Fin 250)"
      and input_csv = "''in.csv''" and s = "Fin (- 5)" and sample_df = ?df
      and t = "- 5242880" and q = "- 5242880 / (120132 / 1000)",
      THEN conjunct2, THEN conjunct2, THEN conjunct2, THEN mp, OF h4]
  from T1 T2 T4 show ?thesis by blast
qed

text \<open>
  C8 as stated fails: with a target size of 0 (and of -5) megabytes the run is not
  rejected and writes segment files.
\<close>

theorem nonpositive_size_counterexample:
  "returned (split_and_convert (demo_env two_batch_file (\<lambda>p. WriteOk)) (init (Fin 250))
      ''in.csv'' ''out'' (Some (Fin 0)) Map.empty) =
     Inr [Path ''out'' ''chunk_0000.parquet'', Path ''out'' ''chunk_0001.parquet''] \<and>
   disk_after (split_and_convert (demo_env two_batch_file (\<lambda>p. WriteOk)) (init (Fin 250))
      ''in.csv'' ''out'' (Some (Fin 0)) Map.empty)
     (Path ''out'' ''chunk_0000.parquet'') = Some (Parquet [''id''] (replicate 1000 [''7''])) \<and>
   returned (split_and_convert (demo_env two_batch_file (\<lambda>p. WriteOk)) (init (Fin 250))
      ''in.csv'' ''out'' (Some (Fin (- 5))) Map.empty) =
     Inr [Path ''out'' ''chunk_0000.parquet'', Path ''out'' ''chunk_0001.parquet'']"
  using two_batch_small_run [of 0] two_batch_small_run [of "- 5"] by simp

section \<open>The row count is advisory\<close>











section \<open>The round trip of a stopped run\<close>


section \<open>The chunk size kept by the converter\<close>

lemma next_rows_skip_prefix:
  "k < n \<Longrightarrow>
   next_rows OnSkip n (replicate k (Record r) @ TooManyFields # ls) =
     (case next_rows OnSkip (n - k) ls of
        Inl e \<Rightarrow> Inl e
      | Inr (rs, rest) \<Rightarrow> Inr (replicate k r @ rs, rest))"
proof (induction k arbitrary: n)
  case 0
  then show ?case by (cases n) (auto split: sum.splits)
next
  case (Suc k)
  then obtain m where "n = Suc m" "k < m" by (cases n) auto
  with Suc.IH [of m] show ?case by (auto split: sum.splits)
qed

text \<open>The same file under the size the constructor was given, 250 megabytes: one batch.\<close>

lemma two_batch_default_estimate:
  assumes "bytes_per_mb self = 1024 * 1024"
  shows "estimate_rows_per_chunk (demo_env two_batch_file w) self p (Fin 250) =
           ([], 2182132)"
proof -
  have "estimate_try (demo_env two_batch_file w) self p (Fin 250) = Inr 2182132"
    using assms
    by (simp add: estimate_try_def two_batch_sample)
       (simp add: avg_row_size_def np_true_divide_def target_chunk_size_def demo_env_def
          trunc_def floor_eq_iff)
  then show ?thesis by (simp add: estimate_rows_per_chunk_def)
qed

lemma two_batch_default_iterator:
  "chunk_iterator (demo_env two_batch_file w) (set_chunk_size (init (Fin 250)) None) ''in.csv'' =
   Inr \<lparr>rd_columns = [''id''],
        pending = replicate 1000 (Record [''7'']) @ TooManyFields # replicate 500 (Record [''8'']),
        first_chunk = True, chunksize = 2182132, on_bad_lines = OnSkip\<rparr>"
proof -
  have "bytes_per_mb (set_chunk_size (init (Fin 250)) None) = 1024 * 1024"
    by (simp add: init_def)
  from two_batch_default_estimate [OF this]
  have "snd (estimate_rows_per_chunk (demo_env two_batch_file w)
              (set_chunk_size (init (Fin 250)) None) ''in.csv''
              (chunk_size_mb (set_chunk_size (init (Fin 250)) None))) = 2182132"
    by (simp add: set_chunk_size_def init_def)
  then show ?thesis
    by (simp add: chunk_iterator_def read_csv_chunks_def)
       (simp add: demo_env_def two_batch_file_def)
qed

lemma two_batch_default_batches:
  "batches \<lparr>rd_columns = [''id''],
        pending = replicate 1000 (Record [''7'']) @ TooManyFields # replicate 500 (Record [''8'']),
        first_chunk = True, chunksize = 2182132, on_bad_lines = OnSkip\<rparr> =
   ([\<lparr>columns = [''id''], rows = replicate 1000 [''7''] @ replicate 500 [''8'']\<rparr>], None)"
proof -
  let ?rd2 = "\<lparr>rd_columns = [''id''], pending = [], first_chunk = False,
               chunksize = 2182132, on_bad_lines = OnSkip\<rparr>"
  have 2: "batches ?rd2 = ([], None)"
    by (subst batches.simps) (simp add: next_chunk_def)
  show ?thesis
    by (subst batches.simps)
       (simp add: next_chunk_def next_rows_skip_prefix next_rows_replicate_short 2)
qed

lemma two_batch_default_run:
  "returned (split_and_convert (demo_env two_batch_file (\<lambda>p. WriteOk)) (init (Fin 250))
      ''in.csv'' ''out'' None Map.empty) = Inr [Path ''out'' ''chunk_0000.parquet'']"
proof -
  let ?E = "demo_env two_batch_file (\<lambda>p. WriteOk)"
  let ?cs = "[\<lparr>columns = [''id''], rows = replicate 1000 [''7''] @ replicate 500 [''8'']\<rparr>]"
  have h1: "mkdir ?E ''out'' = None" by (simp add: demo_env_def)
  have h2: "bytes_per_mb (init (Fin 250)) \<noteq> 0" by (simp add: init_def)
  have h5: "\<forall>i<length ?cs. write_outcome ?E (segment_path ''out'' i) = WriteOk"
    by (simp add: demo_env_def)
  from run_complete [OF h1 h2 two_batch_default_iterator two_batch_default_batches h5,
         of Map.empty]
  show ?thesis by (simp add: out_paths)
qed

text \<open>
  C10. \<open>split_and_convert\<close> leaves the converter with \<open>chunk_size_mb\<close> overwritten by
  a given override and unchanged without one, also when the call raises at \<open>mkdir\<close>; a
  later call on the converter left by a call with the override \<open>v\<close> behaves, without an
  override, as a call with the override \<open>v\<close> on the original converter, and with an
  override \<open>v'\<close> as a call with \<open>v'\<close> on the original converter, whatever the
  constructor was given. Where the directory exists, the later call without an override
  returns and leaves on the disk what the conversion loop produces with the batch length
  estimated from \<open>v\<close>; a call without an override on the original converter returns what
  the loop produces with the batch length estimated from the size it holds.
\<close>

theorem chunk_size_override_persists:
  "self_after (split_and_convert env self input_csv output_dir size_mb d) =
     set_chunk_size self size_mb \<and>
   chunk_size_mb (self_after (split_and_convert env self input_csv output_dir (Some v) d)) = v \<and>
   self_after (split_and_convert env self input_csv output_dir None d) = self \<and>
   split_and_convert env'
     (self_after (split_and_convert env self input_csv output_dir (Some v) d))
     input_csv' output_dir' None d' =
   split_and_convert env' self input_csv' output_dir' (Some v) d' \<and>
   split_and_convert env'
     (self_after (split_and_convert env self input_csv output_dir (Some v) d))
     input_csv' output_dir' (Some v') d' =
   split_and_convert env' self input_csv' output_dir' (Some v') d' \<and>
   (mkdir env' output_dir' = None \<longrightarrow>
      returned (split_and_convert env'
        (self_after (split_and_convert env self input_csv output_dir (Some v) d))
        input_csv' output_dir' None d') =
      Inr (fst (convert_try env' (self\<lparr>chunk_size_mb := v\<rparr>) input_csv' output_dir'
                 (snd (estimate_rows_per_chunk env' (self\<lparr>chunk_size_mb := v\<rparr>)
                         input_csv' v)) d')) \<and>
      disk_after (split_and_convert env'
        (self_after (split_and_convert env self input_csv output_dir (Some v) d))
        input_csv' output_dir' None d') =
      fst (snd (convert_try env' (self\<lparr>chunk_size_mb := v\<rparr>) input_csv' output_dir'
                 (snd (estimate_rows_per_chunk env' (self\<lparr>chunk_size_mb := v\<rparr>)
                         input_csv' v)) d')) \<and>
      returned (split_and_convert env' self input_csv' output_dir' None d') =
      Inr (fst (convert_try env' self input_csv' output_dir'
                 (snd (estimate_rows_per_chunk env' self input_csv' (chunk_size_mb self)))
                 d')))"
proof -
  have a: "self_after (split_and_convert env self input_csv output_dir s d) =
           set_chunk_size self s" for s
    by (simp add: split_and_convert_def convert_with_total_def Let_def
          split: option.splits sum.splits prod.splits)
  have b: "set_chunk_size (set_chunk_size self (Some v)) None = set_chunk_size self (Some v)"
    by (simp add: set_chunk_size_def)
  have c: "set_chunk_size (set_chunk_size self (Some v)) (Some v') =
           set_chunk_size self (Some v')"
    by (simp add: set_chunk_size_def)
  have first: "self_after (split_and_convert env self input_csv output_dir size_mb d) =
     set_chunk_size self size_mb \<and>
   chunk_size_mb (self_after (split_and_convert env self input_csv output_dir (Some v) d)) = v \<and>
   self_after (split_and_convert env self input_csv output_dir None d) = self \<and>
   split_and_convert env'
     (self_after (split_and_convert env self input_csv output_dir (Some v) d))
     input_csv' output_dir' None d' =
   split_and_convert env' self input_csv' output_dir' (Some v) d' \<and>
   split_and_convert env'
     (self_after (split_and_convert env self input_csv output_dir (Some v) d))
     input_csv' output_dir' (Some v') d' =
   split_and_convert env' self input_csv' output_dir' (Some v') d'"
    unfolding a by (simp add: split_and_convert_def b c) (simp add: set_chunk_size_def)
  have run: "returned (split_and_convert env' s input_csv' output_dir' None d') =
      Inr (fst (convert_try env' s input_csv' output_dir'
                 (snd (estimate_rows_per_chunk env' s input_csv' (chunk_size_mb s))) d')) \<and>
      disk_after (split_and_convert env' s input_csv' output_dir' None d') =
      fst (snd (convert_try env' s input_csv' output_dir'
                 (snd (estimate_rows_per_chunk env' s input_csv' (chunk_size_mb s))) d'))"
    if "mkdir env' output_dir' = None" for s
    using split_and_convert_run [where self = s and size_mb = None and input_csv = input_csv'
        and d = d', OF that refl refl]
    by (auto simp: set_chunk_size_def)
  have sa: "self_after (split_and_convert env self input_csv output_dir (Some v) d) =
            self\<lparr>chunk_size_mb := v\<rparr>"
    unfolding a by (simp add: set_chunk_size_def)
  have second: "mkdir env' output_dir' = None \<longrightarrow>
      returned (split_and_convert env'
        (self_after (split_and_convert env self input_csv output_dir (Some v) d))
        input_csv' output_dir' None d') =
      Inr (fst (convert_try env' (self\<lparr>chunk_size_mb := v\<rparr>) input_csv' output_dir'
                 (snd (estimate_rows_per_chunk env' (self\<lparr>chunk_size_mb := v\<rparr>)
                         input_csv' v)) d')) \<and>
      disk_after (split_and_convert env'
        (self_after (split_and_convert env self input_csv output_dir (Some v) d))
        input_csv' output_dir' None d') =
      fst (snd (convert_try env' (self\<lparr>chunk_size_mb := v\<rparr>) input_csv' output_dir'
                 (snd (estimate_rows_per_chunk env' (self\<lparr>chunk_size_mb := v\<rparr>)
                         input_csv' v)) d')) \<and>
      returned (split_and_convert env' self input_csv' output_dir' None d') =
      Inr (fst (convert_try env' self input_csv' output_dir'
                 (snd (estimate_rows_per_chunk env' self input_csv' (chunk_size_mb self)))
                 d'))"
    unfolding sa using run [of "self\<lparr>chunk_size_mb := v\<rparr>"] run [of self] by simp
  from first second show ?thesis by blast
qed

theorem chunk_size_override_persists_witness:
  "mkdir (demo_env two_batch_file (\<lambda>p. WriteOk)) ''out'' = None \<and>
   chunk_size_mb (self_after (split_and_convert (demo_env two_batch_file (\<lambda>p. WriteOk))
      (init (Fin 250)) ''in.csv'' ''out'' (Some (Fin (1 / 1024))) Map.empty)) = Fin (1 / 1024) \<and>
   estimate_rows_per_chunk (demo_env two_batch_file (\<lambda>p. WriteOk))
     ((init (Fin 250))\<lparr>chunk_size_mb := Fin (1 / 1024)\<rparr>) ''in.csv'' (Fin (1 / 1024)) =
     ([], 1000) \<and>
   estimate_rows_per_chunk (demo_env two_batch_file (\<lambda>p. WriteOk))
     (init (Fin 250)) ''in.csv'' (Fin 250) = ([], 2182132) \<and>
   returned (split_and_convert (demo_env two_batch_file (\<lambda>p. WriteOk))
      (self_after (split_and_convert (demo_env two_batch_file (\<lambda>p. WriteOk))
         (init (Fin 250)) ''in.csv'' ''out'' (Some (Fin (1 / 1024))) Map.empty))
      ''in.csv'' ''out'' None Map.empty) =
     Inr [Path ''out'' ''chunk_0000.parquet'', Path ''out'' ''chunk_0001.parquet''] \<and>
   returned (split_and_convert (demo_env two_batch_file (\<lambda>p. WriteOk)) (init (Fin 250))
      ''in.csv'' ''out'' None Map.empty) = Inr [Path ''out'' ''chunk_0000.parquet''] \<and>
   fst (convert_try (demo_env two_batch_file (\<lambda>p. WriteOk))
         ((init (Fin 250))\<lparr>chunk_size_mb := Fin (1 / 1024)\<rparr>) ''in.csv'' ''out''
         (snd (estimate_rows_per_chunk (demo_env two_batch_file (\<lambda>p. WriteOk))
                 ((init (Fin 250))\<lparr>chunk_size_mb := Fin (1 / 1024)\<rparr>) ''in.csv''
                 (Fin (1 / 1024)))) Map.empty) =
     [Path ''out'' ''chunk_0000.parquet'', Path ''out'' ''chunk_0001.parquet'']"
proof -
  let ?E = "demo_env two_batch_file (\<lambda>p. WriteOk)"
  let ?first = "split_and_convert ?E (init (Fin 250)) ''in.csv'' ''out''
                  (Some (Fin (1 / 1024))) Map.empty"
  have m: "mkdir ?E ''out'' = None" by (simp add: demo_env_def)
  note T = chunk_size_override_persists [where env = ?E and self = "init (Fin 250)"
      and input_csv = "''in.csv''" and output_dir = "''out''" and v = "Fin (1 / 1024)"
      and d = Map.empty and env' = ?E and input_csv' = "''in.csv''"
      and output_dir' = "''out''" and d' = Map.empty]
  from T have cs: "chunk_size_mb (self_after ?first) = Fin (1 / 1024)" by blast
  from T have eq: "split_and_convert ?E (self_after ?first) ''in.csv'' ''out'' None Map.empty =
                   split_and_convert ?E (init (Fin 250)) ''in.csv'' ''out''
                     (Some (Fin (1 / 1024))) Map.empty"
    by blast
  with two_batch_ok_run have later:
    "returned (split_and_convert ?E (self_after ?first) ''in.csv'' ''out'' None Map.empty) =
       Inr [Path ''out'' ''chunk_0000.parquet'', Path ''out'' ''chunk_0001.parquet'']"
    by simp
  from T [THEN conjunct2, THEN conjunct2, THEN conjunct2, THEN conjunct2, THEN conjunct2,
      THEN mp, OF m]
  have "returned (split_and_convert ?E (self_after ?first) ''in.csv'' ''out'' None Map.empty) =
      Inr (fst (convert_try ?E ((init (Fin 250))\<lparr>chunk_size_mb := Fin (1 / 1024)\<rparr>)
                 ''in.csv'' ''out''
                 (snd (estimate_rows_per_chunk ?E
                         ((init (Fin 250))\<lparr>chunk_size_mb := Fin (1 / 1024)\<rparr>)
                         ''in.csv'' (Fin (1 / 1024)))) Map.empty))"
    by blast
  with later have ct: "fst (convert_try ?E ((init (Fin 250))\<lparr>chunk_size_mb := Fin (1 / 1024)\<rparr>)
                 ''in.csv'' ''out''
                 (snd (estimate_rows_per_chunk ?E
                         ((init (Fin 250))\<lparr>chunk_size_mb := Fin (1 / 1024)\<rparr>)
                         ''in.csv'' (Fin (1 / 1024)))) Map.empty) =
     [Path ''out'' ''chunk_0000.parquet'', Path ''out'' ''chunk_0001.parquet'']"
    by simp
  have e1: "estimate_rows_per_chunk ?E ((init (Fin 250))\<lparr>chunk_size_mb := Fin (1 / 1024)\<rparr>)
              ''in.csv'' (Fin (1 / 1024)) = ([], 1000)"
    by (rule two_batch_estimate) (simp add: init_def)
  have e2: "estimate_rows_per_chunk ?E (init (Fin 250)) ''in.csv'' (Fin 250) = ([], 2182132)"
    by (rule two_batch_default_estimate) (simp add: init_def)
  from m cs e1 e2 later two_batch_default_run ct show ?thesis by blast
qed

end
